theory Spec2Isabelle
  imports Complex_Main "HOL-Library.Char_ord" "HOL-Library.List_Lexorder"
begin

section \<open>Calendar dates as the controller's Date objects\<close>

text \<open>
  Every Date the accrual code handles is a local midnight built by
  \<^verbatim>\<open>new Date(y, m, d)\<close>; it is kept as its local calendar fields, the month
  0-based as in JavaScript. The record's selectors carry the names of the
  getters the source calls.
\<close>

record jsdate =
  getFullYear :: int
  getMonth :: int
  getDate :: int

definition isLeapYear :: "int \<Rightarrow> bool" where
  "isLeapYear y = (y mod 4 = 0 \<and> (y mod 100 \<noteq> 0 \<or> y mod 400 = 0))"

definition daysInMonth :: "int \<Rightarrow> int \<Rightarrow> int" where
  "daysInMonth y m =
     (if m = 1 then (if isLeapYear y then 29 else 28)
      else if m = 3 \<or> m = 5 \<or> m = 8 \<or> m = 10 then 30
      else 31)"

definition prevMonthOf :: "int \<Rightarrow> int \<Rightarrow> int \<times> int" where
  "prevMonthOf y m = (if m = 0 then (y - 1, 11) else (y, m - 1))"

definition nextMonthOf :: "int \<Rightarrow> int \<Rightarrow> int \<times> int" where
  "nextMonthOf y m = (if m = 11 then (y + 1, 0) else (y, m + 1))"

text \<open>
  The Date constructor accepts a day outside the month and carries it over into
  the neighbouring months (day 0 is the last day of the month before, day
  \<open>n + 1\<close> of an \<open>n\<close>-day month is the first of the next).
\<close>

function normDay :: "int \<Rightarrow> int \<Rightarrow> int \<Rightarrow> jsdate" where
  "normDay y m d =
     (if d < 1 then
        (case prevMonthOf y m of (y', m') \<Rightarrow> normDay y' m' (d + daysInMonth y' m'))
      else if daysInMonth y m < d then
        (case nextMonthOf y m of (y', m') \<Rightarrow> normDay y' m' (d - daysInMonth y m))
      else \<lparr> getFullYear = y, getMonth = m, getDate = d \<rparr>)"
  by pat_completeness auto
termination
  by (relation "measure (\<lambda>(y, m, d). if d < 1 then nat (32 - d) else nat d)")
     (auto simp: daysInMonth_def prevMonthOf_def nextMonthOf_def split: if_splits)

declare normDay.simps [simp del]

text \<open>
  \<^verbatim>\<open>new Date(y, m, d)\<close>: a year from 0 to 99 means 1900 + y, a month outside
  0..11 carries into the year, then the day is carried over.
\<close>

definition newDate :: "int \<Rightarrow> int \<Rightarrow> int \<Rightarrow> jsdate" where
  "newDate y m d =
     (let yr = (if 0 \<le> y \<and> y \<le> 99 then 1900 + y else y)
      in normDay (yr + m div 12) (m mod 12) d)"

text \<open>Dates compare by their time value, that is by (year, month, day).\<close>

definition dateLess :: "jsdate \<Rightarrow> jsdate \<Rightarrow> bool" where
  "dateLess a b =
     (getFullYear a < getFullYear b
      \<or> (getFullYear a = getFullYear b
          \<and> (getMonth a < getMonth b
              \<or> (getMonth a = getMonth b \<and> getDate a < getDate b))))"

definition dateLessEq :: "jsdate \<Rightarrow> jsdate \<Rightarrow> bool" where
  "dateLessEq a b = (dateLess a b \<or> a = b)"

definition validDate :: "jsdate \<Rightarrow> bool" where
  "validDate t =
     (0 \<le> getMonth t \<and> getMonth t \<le> 11
      \<and> 1 \<le> getDate t \<and> getDate t \<le> daysInMonth (getFullYear t) (getMonth t))"

text \<open>
  \<^verbatim>\<open>const dayClamp = (y, m, d) => Math.min(Math.max(1, d), new Date(y, m + 1, 0).getDate())\<close>
\<close>

definition dayClamp :: "int \<Rightarrow> int \<Rightarrow> int \<Rightarrow> int" where
  "dayClamp y m d = min (max 1 d) (getDate (newDate y (m + 1) 0))"

section \<open>Numbers\<close>

text \<open>
  Amounts are the exact rationals the doubles denote. \<^verbatim>\<open>Number(x.toFixed(2))\<close>
  rounds to the nearest hundredth, a tie going to the larger magnitude.
\<close>

definition toFixed2 :: "rat \<Rightarrow> rat" where
  "toFixed2 x =
     (if x < 0 then - (of_int \<lfloor>(- x) * 100 + 1 / 2\<rfloor> / 100)
      else of_int \<lfloor>x * 100 + 1 / 2\<rfloor> / 100)"

text \<open>
  \<^verbatim>\<open>debt.interesEfectivo > 1 ? (debt.interesEfectivo / 100) : debt.interesEfectivo\<close>
\<close>

definition normalizeAnnualRate :: "rat \<Rightarrow> rat" where
  "normalizeAnnualRate r = (if r > 1 then r / 100 else r)"

section \<open>Strings\<close>

definition isDigit :: "char \<Rightarrow> bool" where
  "isDigit c = (c \<in> set ''0123456789'')"

definition digitVal :: "char \<Rightarrow> int" where
  "digitVal c = int (of_char c) - 48"

text \<open>\<^verbatim>\<open>parseInt(s, 10)\<close> on a string of decimal digits.\<close>

definition parseDigits :: "string \<Rightarrow> int" where
  "parseDigits s = foldl (\<lambda>acc c. 10 * acc + digitVal c) 0 s"

text \<open>
  \<^verbatim>\<open>toLowerCase()\<close> on the Latin capital letters; no other character
  lowercases to a letter of \<open>charge\<close> or \<open>payment\<close>.
\<close>

definition lowerChar :: "char \<Rightarrow> char" where
  "lowerChar c =
     (case map_of (zip ''ABCDEFGHIJKLMNOPQRSTUVWXYZ'' ''abcdefghijklmnopqrstuvwxyz'') c of
        Some l \<Rightarrow> l
      | None \<Rightarrow> c)"

definition toLowerCase :: "string \<Rightarrow> string" where
  "toLowerCase s = map lowerChar s"

definition isSpace :: "char \<Rightarrow> bool" where
  "isSpace c = (c \<in> set [CHR '' '', CHR 0x09, CHR 0x0A, CHR 0x0B, CHR 0x0C, CHR 0x0D])"

definition trim :: "string \<Rightarrow> string" where
  "trim s = rev (dropWhile isSpace (rev (dropWhile isSpace s)))"

definition digitChar :: "int \<Rightarrow> char" where
  "digitChar n = ''0123456789'' ! nat (n mod 10)"

definition pad2 :: "int \<Rightarrow> string" where
  "pad2 n = [digitChar (n div 10), digitChar n]"

definition pad4 :: "int \<Rightarrow> string" where
  "pad4 n = [digitChar (n div 1000), digitChar (n div 100), digitChar (n div 10), digitChar n]"

definition pad6 :: "int \<Rightarrow> string" where
  "pad6 n = [digitChar (n div 100000), digitChar (n div 10000)] @ pad4 n"

text \<open>
  The date part of \<^verbatim>\<open>toISOString()\<close> for a date given in UTC fields: four
  digits for the years 0 to 9999, a sign and six digits outside.
\<close>

definition isoDatePart :: "jsdate \<Rightarrow> string" where
  "isoDatePart d =
     (let y = getFullYear d
      in (if 0 \<le> y \<and> y \<le> 9999 then pad4 y
          else (if y < 0 then ''-'' else ''+'') @ pad6 \<bar>y\<bar>)
         @ ''-'' @ pad2 (getMonth d + 1) @ ''-'' @ pad2 (getDate d))"

section \<open>The spreadsheet's tables\<close>

text \<open>
  A row of the debt table with its cells parsed as \<open>accrueDebtInternal\<close> parses
  them: \<open>None\<close> stands for a blank or non-numeric cell (\<open>null\<close> or \<open>NaN\<close>, both
  rejected by \<^verbatim>\<open>Number.isFinite\<close>; a blank balance counts as 0).
\<close>

record debt_row =
  d_id :: string
  d_balance :: "rat option"
  d_dueDay :: "int option"
  d_cutOffDay :: "int option"
  d_interesEfectivo :: rat
  d_active :: bool

record credit_history =
  h_debtId :: string
  h_statementDate :: string
  h_dueDate :: string
  h_previousBalance :: rat
  h_charges :: rat
  h_interests :: rat
  h_payments :: rat
  h_statementBalance :: "rat option"
  h_bonifiableInterest :: rat
  h_installmentBalance :: rat
  h_annualEffectiveRate :: rat
  h_termMonths :: "int option"
  h_periodDays :: int
  h_paymentMade :: rat

text \<open>
  An expense row. The empty string stands for a missing (falsy) \<open>debtId\<close>,
  \<open>date\<close> or \<open>entryType\<close>; \<open>e_amount\<close> is \<^verbatim>\<open>Number(e.amount)\<close>, \<open>None\<close> when
  that is \<open>NaN\<close>.
\<close>

record expense =
  e_debtId :: string
  e_date :: string
  e_entryType :: string
  e_amount :: "rat option"

record sheet =
  debts :: "debt_row list"
  creditHistory :: "credit_history list"
  expenses :: "expense list"

datatype event_kind = Charge | Payment

record event =
  ev_date :: jsdate
  ev_kind :: event_kind
  ev_amount :: rat


datatype sheet_op =
    GetDebts | GetDebtsObjects | GetCreditHistoryObjects | FindCreditHistoryRow
  | GetCreditHistoryByRow | GetExpensesObjects | SumPaymentsForDebt
  | UpdateCreditHistoryRow | AppendCreditHistoryRecord | UpdateDebt

datatype api_error = ApiError nat string | Upstream sheet_op

text \<open>
  What \<open>accrueDebtInternal\<close> takes from outside the controller: the functions
  it imports from the finance and statement-calculator utilities, the reads
  of the sheets service, the calls of the service that throw, the clock and
  the time zone.
  \<^item> \<open>failing\<close>: the service operations that throw when called;
  \<^item> \<open>today\<close>: the local calendar date of \<^verbatim>\<open>new Date()\<close>;
  \<^item> \<open>tzEast\<close>: the server's zone is ahead of UTC, so that a local midnight
    lies on the previous UTC day and \<^verbatim>\<open>toISOString()\<close> prints that day;
  \<^item> \<open>parseDateFallback\<close>: \<^verbatim>\<open>new Date(dateStr)\<close> for a string that does not
    start with YYYY-MM-DD, \<open>None\<close> for an invalid date; expense dates carry no
    time of day.
\<close>

record env =
  failing :: "sheet_op list"
  today :: jsdate
  tzEast :: bool
  parseDateFallback :: "string \<Rightarrow> jsdate option"
  nextDateForDayOfMonth :: "int \<Rightarrow> jsdate \<Rightarrow> jsdate"
  daysBetweenDates :: "jsdate \<Rightarrow> jsdate \<Rightarrow> int"
  computeSpdInterests :: "rat \<Rightarrow> event list \<Rightarrow> rat \<Rightarrow> jsdate \<Rightarrow> jsdate \<Rightarrow> rat \<times> rat"
  computeInterestCarryOver :: "credit_history \<Rightarrow> rat \<Rightarrow> rat"
  sumPaymentsForDebt :: "expense list \<Rightarrow> string \<Rightarrow> string \<Rightarrow> string \<Rightarrow> rat"

definition fails :: "env \<Rightarrow> sheet_op \<Rightarrow> bool" where
  "fails e op = (op \<in> set (failing e))"

text \<open>\<^verbatim>\<open>d.toISOString().slice(0, 10)\<close> of a local midnight.\<close>

definition toISODate :: "env \<Rightarrow> jsdate \<Rightarrow> string" where
  "toISODate e d =
     take 10 (isoDatePart
       (if tzEast e then newDate (getFullYear d) (getMonth d) (getDate d - 1) else d))"

section \<open>The accrual orchestrator: \<open>accrueDebtInternal\<close>\<close>

subsection \<open>Resolving the statement, due and previous statement dates\<close>

text \<open>\<^verbatim>\<open>/^\d{4}-\d{2}$/.test(String(periodParam))\<close>\<close>

definition matchesPeriod :: "string \<Rightarrow> bool" where
  "matchesPeriod p =
     (case p of
        [a, b, c, d, h, m1, m2] \<Rightarrow>
          isDigit a \<and> isDigit b \<and> isDigit c \<and> isDigit d \<and> h = CHR ''-''
          \<and> isDigit m1 \<and> isDigit m2
      | _ \<Rightarrow> False)"

definition dateOnly :: "jsdate \<Rightarrow> jsdate" where
  "dateOnly d = newDate (getFullYear d) (getMonth d) (getDate d)"

text \<open>
  Step 2 of the source. \<open>base\<close> is \<^verbatim>\<open>dateOnly(baseDate)\<close>; \<open>periodParam\<close>
  is \<open>None\<close> when the caller gave none.
\<close>

definition resolveStatementDate ::
  "debt_row \<Rightarrow> jsdate \<Rightarrow> string option \<Rightarrow> api_error + jsdate" where
  "resolveStatementDate debt base periodParam =
     (if (case periodParam of None \<Rightarrow> False | Some p \<Rightarrow> p \<noteq> [] \<and> matchesPeriod p) then
        (let p = (case periodParam of None \<Rightarrow> [] | Some p \<Rightarrow> p);
             y = parseDigits (take 4 p);
             m = parseDigits (drop 5 p) - 1
         in if m < 0 \<or> m > 11 then
              Inl (ApiError 400 ''Invalid period format. Expected YYYY-MM'')
            else
              (case d_cutOffDay debt of
                 Some cutOffDay \<Rightarrow> Inr (newDate y m (dayClamp y m cutOffDay))
               | None \<Rightarrow> Inr (newDate y (m + 1) 0)))
      else
        (case d_cutOffDay debt of
           Some cutOffDay \<Rightarrow>
             (let currentMonthCut =
                    newDate (getFullYear base) (getMonth base)
                      (dayClamp (getFullYear base) (getMonth base) cutOffDay)
              in if getDate base \<ge> getDate currentMonthCut then Inr currentMonthCut
                 else
                   (let prevMonth = newDate (getFullYear base) (getMonth base - 1) 1
                    in Inr (newDate (getFullYear prevMonth) (getMonth prevMonth)
                         (dayClamp (getFullYear prevMonth) (getMonth prevMonth) cutOffDay))))
         | None \<Rightarrow> Inr (newDate (getFullYear base) (getMonth base) 0)))"

definition dueDateOf :: "env \<Rightarrow> debt_row \<Rightarrow> jsdate \<Rightarrow> jsdate" where
  "dueDateOf e debt statementDate =
     (case d_dueDay debt of
        Some dueDay \<Rightarrow> nextDateForDayOfMonth e dueDay statementDate
      | None \<Rightarrow>
          newDate (getFullYear statementDate) (getMonth statementDate)
            (dayClamp (getFullYear statementDate) (getMonth statementDate) 25))"

definition prevStatementDateOf :: "debt_row \<Rightarrow> jsdate \<Rightarrow> jsdate" where
  "prevStatementDateOf debt statementDate =
     (let prevMonth = newDate (getFullYear statementDate) (getMonth statementDate - 1) 1
      in case d_cutOffDay debt of
           Some cutOffDay \<Rightarrow>
             newDate (getFullYear prevMonth) (getMonth prevMonth)
               (dayClamp (getFullYear prevMonth) (getMonth prevMonth) cutOffDay)
         | None \<Rightarrow> newDate (getFullYear statementDate) (getMonth statementDate) 0)"

text \<open>
  \<^verbatim>\<open>new Date(prevStatementDate.getFullYear(), prevStatementDate.getMonth(), prevStatementDate.getDate() + 1)\<close>
\<close>

definition startPeriodOf :: "jsdate \<Rightarrow> jsdate" where
  "startPeriodOf prevStatementDate =
     newDate (getFullYear prevStatementDate) (getMonth prevStatementDate)
       (getDate prevStatementDate + 1)"

text \<open>
  The window of a statement date: the test of source line 459 with the bounds
  that lines 414 to 418 and 446 to 450 compute for the debt.
\<close>

definition inPeriod :: "debt_row \<Rightarrow> jsdate \<Rightarrow> jsdate \<Rightarrow> bool" where
  "inPeriod debt statementDate t =
     (dateLessEq (dateOnly (startPeriodOf (prevStatementDateOf debt statementDate))) t
      \<and> dateLess t (dateOnly statementDate))"

subsection \<open>Gathering and ordering the period's events\<close>

text \<open>
  \<open>parseDateString\<close>: the leading \<^verbatim>\<open>YYYY-MM-DD\<close> read field by field, any
  other string left to the Date parser.
\<close>

definition parseDateString :: "env \<Rightarrow> string \<Rightarrow> jsdate option" where
  "parseDateString e dateStr =
     (case dateStr of
        a # b # c # d # h1 # m1 # m2 # h2 # d1 # d2 # rest \<Rightarrow>
          if isDigit a \<and> isDigit b \<and> isDigit c \<and> isDigit d \<and> h1 = CHR ''-''
             \<and> isDigit m1 \<and> isDigit m2 \<and> h2 = CHR ''-'' \<and> isDigit d1 \<and> isDigit d2
          then Some (newDate (parseDigits [a, b, c, d]) (parseDigits [m1, m2] - 1)
                       (parseDigits [d1, d2]))
          else parseDateFallback e dateStr
      | _ \<Rightarrow> parseDateFallback e dateStr)"

text \<open>
  The loop over \<open>allExpenses\<close> (source lines 452 to 467): each \<^verbatim>\<open>continue\<close>
  and each test that fails passes on to the rest of the list. An invalid
  date compares false with both bounds.
\<close>

fun gatherPeriodEvents ::
  "env \<Rightarrow> string \<Rightarrow> jsdate \<Rightarrow> jsdate \<Rightarrow> expense list \<Rightarrow> event list" where
  "gatherPeriodEvents e debtId startPeriod statementDate [] = []"
| "gatherPeriodEvents e debtId startPeriod statementDate (x # xs) =
     (if e_debtId x = [] \<or> e_debtId x \<noteq> debtId \<or> e_date x = [] then
        gatherPeriodEvents e debtId startPeriod statementDate xs
      else
        (case parseDateString e (trim (e_date x)) of
           None \<Rightarrow> gatherPeriodEvents e debtId startPeriod statementDate xs
         | Some dateOnlyEvent \<Rightarrow>
             if dateLessEq startPeriod dateOnlyEvent \<and> dateLess dateOnlyEvent statementDate then
               (let entryType = (if e_entryType x \<noteq> [] then toLowerCase (e_entryType x) else []);
                    amount = (case e_amount x of None \<Rightarrow> 0 | Some a \<Rightarrow> a)
                in if amount \<le> 0 then
                     gatherPeriodEvents e debtId startPeriod statementDate xs
                   else if entryType = ''charge'' then
                     \<lparr> ev_date = dateOnlyEvent, ev_kind = Charge, ev_amount = amount \<rparr>
                       # gatherPeriodEvents e debtId startPeriod statementDate xs
                   else if entryType = ''payment'' then
                     \<lparr> ev_date = dateOnlyEvent, ev_kind = Payment, ev_amount = amount \<rparr>
                       # gatherPeriodEvents e debtId startPeriod statementDate xs
                   else gatherPeriodEvents e debtId startPeriod statementDate xs)
             else gatherPeriodEvents e debtId startPeriod statementDate xs))"

text \<open>
  The comparator handed to \<^verbatim>\<open>periodEvents.sort\<close>. Only the sign of
  \<^verbatim>\<open>a.date - b.date\<close> reaches the sort.
\<close>

definition cmpEvents :: "event \<Rightarrow> event \<Rightarrow> int" where
  "cmpEvents a b =
     (if ev_date a \<noteq> ev_date b then (if dateLess (ev_date a) (ev_date b) then - 1 else 1)
      else if ev_kind a = ev_kind b then 0
      else if ev_kind a = Payment then - 1 else 1)"

text \<open>
  \<^verbatim>\<open>Array.prototype.sort\<close> is stable: it yields the stable arrangement by the
  comparator, which insertion from the right computes.
\<close>

fun insertBy :: "('a \<Rightarrow> 'a \<Rightarrow> int) \<Rightarrow> 'a \<Rightarrow> 'a list \<Rightarrow> 'a list" where
  "insertBy cmp x [] = [x]"
| "insertBy cmp x (y # ys) = (if cmp x y \<le> 0 then x # y # ys else y # insertBy cmp x ys)"

definition sortBy :: "('a \<Rightarrow> 'a \<Rightarrow> int) \<Rightarrow> 'a list \<Rightarrow> 'a list" where
  "sortBy cmp xs = foldr (insertBy cmp) xs []"

definition periodEventsOf ::
  "env \<Rightarrow> string \<Rightarrow> jsdate \<Rightarrow> jsdate \<Rightarrow> expense list \<Rightarrow> event list" where
  "periodEventsOf e debtId startPeriod statementDate allExpenses =
     sortBy cmpEvents (gatherPeriodEvents e debtId startPeriod statementDate allExpenses)"

text \<open>
  \<^verbatim>\<open>periodEvents.filter(e => e.kind === k).reduce((s, e) => s + e.amount, 0)\<close>
\<close>

definition sumKind :: "event_kind \<Rightarrow> event list \<Rightarrow> rat" where
  "sumKind k evs = foldl (\<lambda>s ev. s + ev_amount ev) 0 (filter (\<lambda>ev. ev_kind ev = k) evs)"


subsection \<open>The sheets service's ledger operations\<close>

text \<open>
  Modelled from the spec: the sheets service's \<open>findCreditHistoryRow\<close>,
  \<open>updateCreditHistoryRow\<close>, \<open>appendCreditHistoryRecord\<close> and \<open>updateDebt\<close>
  (the service's source is not part of the controller). The ledger is the
  list of records below the header row, so the first record is row 2;
  finding gives the row of the first record with the key or \<open>None\<close>, updating
  replaces the record of that row, appending adds a last row, and
  \<open>updateDebt\<close> with \<^verbatim>\<open>{ id, balance }\<close> stores the balance of that debt.
\<close>

fun findRowFrom :: "nat \<Rightarrow> credit_history list \<Rightarrow> string \<Rightarrow> string \<Rightarrow> nat option" where
  "findRowFrom n [] debtId statementDateStr = None"
| "findRowFrom n (h # hs) debtId statementDateStr =
     (if h_debtId h = debtId \<and> h_statementDate h = statementDateStr then Some n
      else findRowFrom (Suc n) hs debtId statementDateStr)"

definition findCreditHistoryRow :: "credit_history list \<Rightarrow> string \<Rightarrow> string \<Rightarrow> nat option" where
  "findCreditHistoryRow history debtId statementDateStr =
     findRowFrom 2 history debtId statementDateStr"

definition updateCreditHistoryRow ::
  "credit_history list \<Rightarrow> nat \<Rightarrow> credit_history \<Rightarrow> credit_history list" where
  "updateCreditHistoryRow history rowNumber record = history[rowNumber - 2 := record]"

definition appendCreditHistoryRecord ::
  "credit_history list \<Rightarrow> credit_history \<Rightarrow> credit_history list" where
  "appendCreditHistoryRecord history record = history @ [record]"

definition updateDebt :: "debt_row list \<Rightarrow> string \<Rightarrow> rat \<Rightarrow> debt_row list" where
  "updateDebt rows debtId newBalance =
     map (\<lambda>r. if d_id r = debtId then r\<lparr> d_balance := Some newBalance \<rparr> else r) rows"

subsection \<open>Previous balance\<close>

text \<open>
  \<^verbatim>\<open>history.filter(...).sort((a, b) => (a.statementDate < b.statementDate ? 1 : -1))[0]\<close>:
  the record of this debt with the greatest statement date before the
  current one. The comparator never answers 0, so among records with the same
  date the engine decides; the first of them in the sheet is taken here.
\<close>

definition lastForDebtOf :: "credit_history list \<Rightarrow> string \<Rightarrow> string \<Rightarrow> credit_history option" where
  "lastForDebtOf history debtId statementDateStr =
     (case filter (\<lambda>h. h_debtId h = debtId \<and> h_statementDate h \<noteq> []
                        \<and> h_statementDate h < statementDateStr) history of
        [] \<Rightarrow> None
      | h # hs \<Rightarrow>
          Some (foldl (\<lambda>best r. if h_statementDate best < h_statementDate r then r else best) h hs))"

definition previousBalanceOf :: "debt_row \<Rightarrow> credit_history option \<Rightarrow> rat" where
  "previousBalanceOf debt lastForDebt =
     (let debtBalance = (case d_balance debt of Some b \<Rightarrow> b | None \<Rightarrow> 0)
      in case lastForDebt of
           None \<Rightarrow> debtBalance
         | Some l \<Rightarrow> (case h_statementBalance l of Some b \<Rightarrow> b | None \<Rightarrow> debtBalance))"

subsection \<open>Computing the statement\<close>

text \<open>
  Source lines 496 to 499: \<open>interests\<close>, \<open>statementBalance\<close> and
  \<open>installmentBalance\<close> from the period's totals and the calculator's figures.
\<close>

definition interestsOf :: "rat \<Rightarrow> rat \<Rightarrow> rat" where
  "interestsOf interestSobreSaldo interestCarryOver =
     toFixed2 (interestSobreSaldo + interestCarryOver)"

definition statementBalanceOf :: "rat \<Rightarrow> rat \<Rightarrow> rat \<Rightarrow> rat \<Rightarrow> rat" where
  "statementBalanceOf previousBalance charges interests payments =
     toFixed2 (max 0 (previousBalance + charges + interests - payments))"

text \<open>
  Steps 4 to 7 up to the assembled \<open>record\<close>. The carry-over's
  \<open>sumPaymentsForDebt\<close> sits in a \<^verbatim>\<open>try\<close> whose \<^verbatim>\<open>catch\<close> sets the carry-over to
  0; the one for \<open>paymentMade\<close> throws to the caller. The day count is an
  integer, on which the source's \<^verbatim>\<open>|| 0\<close> changes nothing.
\<close>

definition buildRecord ::
  "env \<Rightarrow> sheet \<Rightarrow> string \<Rightarrow> debt_row \<Rightarrow> jsdate \<Rightarrow> api_error + credit_history" where
  "buildRecord e sh debtId debt statementDate =
     (let dueDate = dueDateOf e debt statementDate;
          prevStatementDate = prevStatementDateOf debt statementDate;
          history = creditHistory sh;
          statementDateStr = toISODate e statementDate;
          lastForDebt = lastForDebtOf history debtId statementDateStr;
          previousBalance = previousBalanceOf debt lastForDebt
      in if fails e GetExpensesObjects then Inl (Upstream GetExpensesObjects)
         else
           (let allExpenses = expenses sh;
                startPeriod = startPeriodOf prevStatementDate;
                periodEvents = periodEventsOf e debtId (dateOnly startPeriod) (dateOnly statementDate)
                                 allExpenses;
                charges = sumKind Charge periodEvents;
                payments = sumKind Payment periodEvents;
                annualRateUnit = normalizeAnnualRate (d_interesEfectivo debt);
                spd = computeSpdInterests e previousBalance periodEvents annualRateUnit
                        startPeriod statementDate;
                interestSobreSaldo = fst spd;
                interestBonificable = snd spd;
                interestCarryOver =
                  (case lastForDebt of
                     None \<Rightarrow> 0
                   | Some l \<Rightarrow>
                       if fails e SumPaymentsForDebt then 0
                       else computeInterestCarryOver e l
                              (sumPaymentsForDebt e allExpenses debtId (h_statementDate l) (h_dueDate l)));
                interests = interestsOf interestSobreSaldo interestCarryOver;
                bonifiableInterest = toFixed2 interestBonificable;
                statementBalance = statementBalanceOf previousBalance charges interests payments;
                installmentBalance = toFixed2 (statementBalance + bonifiableInterest)
            in if fails e SumPaymentsForDebt then Inl (Upstream SumPaymentsForDebt)
               else Inr \<lparr> h_debtId = debtId,
                          h_statementDate = statementDateStr,
                          h_dueDate = toISODate e dueDate,
                          h_previousBalance = previousBalance,
                          h_charges = charges,
                          h_interests = interests,
                          h_payments = payments,
                          h_statementBalance = Some statementBalance,
                          h_bonifiableInterest = bonifiableInterest,
                          h_installmentBalance = installmentBalance,
                          h_annualEffectiveRate = annualRateUnit,
                          h_termMonths = None,
                          h_periodDays = daysBetweenDates e (dateOnly startPeriod) statementDate,
                          h_paymentMade =
                            sumPaymentsForDebt e allExpenses debtId statementDateStr
                              (toISODate e dueDate) \<rparr>))"

subsection \<open>Persisting the statement and the running balance\<close>

text \<open>
  \<open>currentCharges\<close> and \<open>currentPayments\<close>: the amounts dated after the
  statement date and up to today, of the given entry type.
\<close>

definition sumAfterStatement :: "env \<Rightarrow> string \<Rightarrow> jsdate \<Rightarrow> string \<Rightarrow> expense list \<Rightarrow> rat" where
  "sumAfterStatement e debtId statementDateOnly entryTypeWanted allExpenses =
     foldl (\<lambda>sum x. sum + (case e_amount x of None \<Rightarrow> 0 | Some a \<Rightarrow> a)) 0
       (filter
          (\<lambda>x. if e_debtId x = [] \<or> e_debtId x \<noteq> debtId \<or> e_date x = [] then False
                else (case parseDateString e (trim (e_date x)) of
                        None \<Rightarrow> False
                      | Some dateOnlyEvent \<Rightarrow>
                          dateLess statementDateOnly dateOnlyEvent
                          \<and> dateLessEq dateOnlyEvent (dateOnly (today e))
                          \<and> (if e_entryType x \<noteq> [] then toLowerCase (e_entryType x) else [])
                              = entryTypeWanted))
          allExpenses)"

datatype accrue_result =
    Skipped string "string option"
  | Computed string credit_history string

fun skipped :: "accrue_result \<Rightarrow> bool" where
  "skipped (Skipped reason statementDate) = True"
| "skipped (Computed key record statementDate) = False"

text \<open>
  Step 7 and the balance update that follows it (source lines 518 to 551):
  the ledger write, then \<open>updateDebt\<close>. A call that throws leaves the sheet as
  the calls before it made it.
\<close>

definition persistStatement ::
  "env \<Rightarrow> sheet \<Rightarrow> string \<Rightarrow> bool \<Rightarrow> bool \<Rightarrow> nat option \<Rightarrow> credit_history \<Rightarrow> jsdate
     \<Rightarrow> (api_error + accrue_result) \<times> sheet" where
  "persistStatement e sh debtId recompute exists previousRowNumber record statementDate =
     (let inPlace = (exists \<and> recompute
                      \<and> (case previousRowNumber of None \<Rightarrow> False | Some r \<Rightarrow> r \<noteq> 0));
          writeOp = (if inPlace then UpdateCreditHistoryRow else AppendCreditHistoryRecord)
      in if fails e writeOp then (Inl (Upstream writeOp), sh)
         else
           (let sh1 = sh\<lparr> creditHistory :=
                         (if inPlace then
                            updateCreditHistoryRow (creditHistory sh)
                              (case previousRowNumber of None \<Rightarrow> 0 | Some r \<Rightarrow> r) record
                          else appendCreditHistoryRecord (creditHistory sh) record) \<rparr>;
                statementBalance = (case h_statementBalance record of None \<Rightarrow> 0 | Some b \<Rightarrow> b);
                currentCharges =
                  sumAfterStatement e debtId (dateOnly statementDate) ''charge'' (expenses sh);
                currentPayments =
                  sumAfterStatement e debtId (dateOnly statementDate) ''payment'' (expenses sh);
                currentBalance = toFixed2 (statementBalance + currentCharges - currentPayments)
            in if fails e UpdateDebt then (Inl (Upstream UpdateDebt), sh1)
               else
                 (Inr (Computed (debtId @ ''|'' @ h_statementDate record) record
                         (h_statementDate record)),
                  sh1\<lparr> debts := updateDebt (debts sh1) debtId currentBalance \<rparr>)))"

subsection \<open>The whole operation\<close>

record options =
  o_recompute :: bool
  o_dateParam :: "jsdate option"
  o_periodParam :: "string option"

text \<open>
  Step 3 (source lines 420 to 435): the idempotency check and, for a
  recompute, the lookup of the row to overwrite.
\<close>

definition existsInHistory :: "credit_history list \<Rightarrow> string \<Rightarrow> string \<Rightarrow> bool" where
  "existsInHistory history debtId statementDateStr =
     list_ex (\<lambda>h. h_debtId h = debtId \<and> h_statementDate h = statementDateStr) history"

definition loadPreviousRow ::
  "env \<Rightarrow> credit_history list \<Rightarrow> string \<Rightarrow> string \<Rightarrow> bool \<Rightarrow> bool \<Rightarrow> api_error + nat option" where
  "loadPreviousRow e history debtId statementDateStr exists recompute =
     (if exists \<and> recompute then
        (if fails e FindCreditHistoryRow then Inl (Upstream FindCreditHistoryRow)
         else
           (case findCreditHistoryRow history debtId statementDateStr of
              None \<Rightarrow> Inr None
            | Some r \<Rightarrow>
                if r \<noteq> 0 \<and> fails e GetCreditHistoryByRow then Inl (Upstream GetCreditHistoryByRow)
                else Inr (Some r)))
      else Inr None)"

text \<open>\<^verbatim>\<open>rows.slice(1).find(r => String(r[idx.id]) === String(debtId))\<close>\<close>

definition findDebt :: "debt_row list \<Rightarrow> string \<Rightarrow> debt_row option" where
  "findDebt rows debtId = find (\<lambda>r. d_id r = debtId) rows"

text \<open>
  \<open>accrueDebtInternal(sheetsService, debtId, options)\<close>: the result or the
  error thrown, and the sheet as the call leaves it. \<open>o_dateParam\<close> is the local
  calendar date that \<^verbatim>\<open>new Date(dateParam)\<close> denotes. The source also computes
  a \<open>nextStatementDate\<close> that it never reads; it is left out, as is the
  two-decimal formatting of the response.
\<close>

definition accrueDebtInternal ::
  "env \<Rightarrow> sheet \<Rightarrow> string \<Rightarrow> options \<Rightarrow> (api_error + accrue_result) \<times> sheet" where
  "accrueDebtInternal e sh debtId opts =
     (let baseDate = (case o_dateParam opts of Some d \<Rightarrow> d | None \<Rightarrow> today e)
      in if fails e GetDebts then (Inl (Upstream GetDebts), sh)
         else
           (case findDebt (debts sh) debtId of
              None \<Rightarrow> (Inl (ApiError 404 ''Debt not found''), sh)
            | Some debt \<Rightarrow>
                if \<not> d_active debt then (Inr (Skipped ''Debt is inactive'' None), sh)
                else
                  (case resolveStatementDate debt (dateOnly baseDate) (o_periodParam opts) of
                     Inl err \<Rightarrow> (Inl err, sh)
                   | Inr statementDate \<Rightarrow>
                       if fails e GetCreditHistoryObjects then
                         (Inl (Upstream GetCreditHistoryObjects), sh)
                       else
                         (let history = creditHistory sh;
                              statementDateStr = toISODate e statementDate;
                              exists = existsInHistory history debtId statementDateStr
                          in if exists \<and> \<not> o_recompute opts then
                               (Inr (Skipped ''Already accrued for this statementDate''
                                       (Some statementDateStr)), sh)
                             else
                               (case loadPreviousRow e history debtId statementDateStr exists
                                       (o_recompute opts) of
                                  Inl err \<Rightarrow> (Inl err, sh)
                                | Inr previousRowNumber \<Rightarrow>
                                    (case buildRecord e sh debtId debt statementDate of
                                       Inl err \<Rightarrow> (Inl err, sh)
                                     | Inr record \<Rightarrow>
                                         persistStatement e sh debtId (o_recompute opts) exists
                                           previousRowNumber record statementDate))))))"

section \<open>The scheduled batch runner: \<open>processDebtAccruals\<close>\<close>

text \<open>
  A user row of the user store together with the spreadsheet its \<open>sheetId\<close>
  names. The empty string stands for a missing \<open>sheetId\<close>, \<open>accessToken\<close> or
  \<open>refreshToken\<close>.
\<close>

record user =
  u_id :: string
  u_googleId :: string
  u_sheetId :: string
  u_accessToken :: string
  u_refreshToken :: string
  u_sheet :: sheet

text \<open>The probe of the user's sheet: the response's status, or a \<open>fetch\<close> that throws.\<close>

datatype probe_result = ProbeStatus nat | ProbeThrows

text \<open>
  What the batch takes from outside: the probe, the auth service's
  \<open>refreshAccessToken\<close> (\<open>None\<close> when it throws), whether the user store's
  \<open>updateUserTokens\<close> throws for a user, the surroundings of the sheets service
  built for a token and a sheet, and the day of the month of \<^verbatim>\<open>new Date()\<close>.
\<close>

record batch_env =
  fetchSheet :: "string \<Rightarrow> string \<Rightarrow> probe_result"
  refreshAccessToken :: "string \<Rightarrow> string option"
  updateUserTokensThrows :: "string \<Rightarrow> bool"
  serviceEnv :: "string \<Rightarrow> string \<Rightarrow> env"
  todayDay :: int

record counts =
  totalProcessed :: nat
  totalSkipped :: nat
  totalErrors :: nat

text \<open>
  The \<^verbatim>\<open>try\<close> around one call of \<open>accrueDebtInternal\<close> (source lines 185 to
  217): a thrown error counts as an error, a skipped result as skipped, any
  other result as processed.
\<close>

definition tally :: "api_error + accrue_result \<Rightarrow> counts \<Rightarrow> counts" where
  "tally res c =
     (case res of
        Inl err \<Rightarrow> c\<lparr> totalErrors := totalErrors c + 1 \<rparr>
      | Inr result \<Rightarrow>
          if skipped result then c\<lparr> totalSkipped := totalSkipped c + 1 \<rparr>
          else c\<lparr> totalProcessed := totalProcessed c + 1 \<rparr>)"

text \<open>The loop over the user's debts (source lines 163 to 218).\<close>

fun processDebts :: "env \<Rightarrow> int \<Rightarrow> debt_row list \<Rightarrow> sheet \<times> counts \<Rightarrow> sheet \<times> counts" where
  "processDebts e tDay [] (sh, c) = (sh, c)"
| "processDebts e tDay (debt # rest) (sh, c) =
     (if \<not> d_active debt then processDebts e tDay rest (sh, c)
      else
        (case d_cutOffDay debt of
           None \<Rightarrow> processDebts e tDay rest (sh, c)
         | Some cutOffDay \<Rightarrow>
             if cutOffDay = 0 \<or> cutOffDay \<noteq> tDay then processDebts e tDay rest (sh, c)
             else
               (case accrueDebtInternal e sh (d_id debt)
                       \<lparr> o_recompute = False, o_dateParam = None, o_periodParam = None \<rparr> of
                  (res, sh') \<Rightarrow> processDebts e tDay rest (sh', tally res c))))"

text \<open>
  From the sheets service built with the token to the end of the user's
  \<^verbatim>\<open>try\<close> block: \<open>getDebtsObjects\<close> throwing lands in the outer \<^verbatim>\<open>catch\<close>,
  which counts one error.
\<close>

definition processUserDebts :: "batch_env \<Rightarrow> string \<Rightarrow> user \<Rightarrow> counts \<Rightarrow> user \<times> counts" where
  "processUserDebts b accessToken u c =
     (let e = serviceEnv b accessToken (u_sheetId u)
      in if fails e GetDebtsObjects then (u, c\<lparr> totalErrors := totalErrors c + 1 \<rparr>)
         else
           (case processDebts e (todayDay b) (debts (u_sheet u)) (u_sheet u, c) of
              (sh', c') \<Rightarrow> (u\<lparr> u_sheet := sh' \<rparr>, c')))"

text \<open>
  One turn of the loop over the users (source lines 79 to 227). Each
  \<^verbatim>\<open>continue\<close> returns the user and the counters as they are.
\<close>

definition processUser :: "batch_env \<Rightarrow> user \<Rightarrow> counts \<Rightarrow> user \<times> counts" where
  "processUser b u c =
     (if u_sheetId u = [] \<or> u_accessToken u = [] then (u, c)
      else
        (case fetchSheet b (u_sheetId u) (u_accessToken u) of
           ProbeThrows \<Rightarrow> (u, c)
         | ProbeStatus status \<Rightarrow>
             if status = 401 \<and> u_refreshToken u \<noteq> [] then
               (case refreshAccessToken b (u_refreshToken u) of
                  None \<Rightarrow> (u, c)
                | Some accessToken \<Rightarrow>
                    if updateUserTokensThrows b (u_googleId u) then (u, c)
                    else processUserDebts b accessToken (u\<lparr> u_accessToken := accessToken \<rparr>) c)
             else if \<not> (200 \<le> status \<and> status \<le> 299) \<and> status \<noteq> 401 then (u, c)
             else processUserDebts b (u_accessToken u) u c))"

fun processUsers :: "batch_env \<Rightarrow> user list \<Rightarrow> counts \<Rightarrow> user list \<times> counts" where
  "processUsers b [] c = ([], c)"
| "processUsers b (u # us) c =
     (case processUser b u c of
        (u', c') \<Rightarrow> (case processUsers b us c' of (us', c'') \<Rightarrow> (u' # us', c'')))"

text \<open>
  \<open>processDebtAccruals\<close> over the users that \<open>getAllUsers\<close> returned: the users
  with their sheets as the run leaves them, and the three totals it logs.
\<close>

definition processDebtAccruals :: "batch_env \<Rightarrow> user list \<Rightarrow> user list \<times> counts" where
  "processDebtAccruals b users =
     processUsers b users \<lparr> totalProcessed = 0, totalSkipped = 0, totalErrors = 0 \<rparr>"

section \<open>A concrete sheet and concrete surroundings\<close>

text \<open>
  The utilities that the controller imports are parameters of the model. To
  run it, they are instantiated here from their descriptions in the spec.
\<close>

definition dayNumber :: "jsdate \<Rightarrow> int" where
  "dayNumber d =
     (let y = (if getMonth d \<le> 1 then getFullYear d - 1 else getFullYear d);
          era = y div 400;
          yoe = y - era * 400;
          mp = (getMonth d + 10) mod 12;
          doy = (153 * mp + 2) div 5 + getDate d - 1;
          doe = yoe * 365 + yoe div 4 - yoe div 100 + doy
      in era * 146097 + doe - 719468)"

text \<open>
  Modelled from the spec: \<open>daysBetweenDates\<close> of the finance utilities, the
  integer day count \<open>dateB - dateA\<close> on date-only values.
\<close>

definition specDaysBetween :: "jsdate \<Rightarrow> jsdate \<Rightarrow> int" where
  "specDaysBetween a b = dayNumber b - dayNumber a"

text \<open>
  Modelled from the spec: \<open>nextDateForDayOfMonth\<close> of the finance utilities,
  the next calendar date, possibly \<open>fromDate\<close> itself, whose day of the month is
  the given day clamped to the month's length.
\<close>

definition specNextDateForDayOfMonth :: "int \<Rightarrow> jsdate \<Rightarrow> jsdate" where
  "specNextDateForDayOfMonth dayOfMonth fromDate =
     (let y = getFullYear fromDate; m = getMonth fromDate;
          thisMonth = newDate y m (dayClamp y m dayOfMonth)
      in if dateLessEq fromDate thisMonth then thisMonth
         else newDate y (m + 1) (dayClamp y (m + 1) dayOfMonth))"

text \<open>
  Modelled from the spec: the segment walk of \<open>computeSpdInterests\<close> in the
  statement calculator. The running balance starts at the previous balance
  and each event adjusts it on its date; every segment accrues
  daily rate times running balance times the segment's days.
\<close>

fun spdWalk :: "rat \<Rightarrow> rat \<Rightarrow> jsdate \<Rightarrow> jsdate \<Rightarrow> event list \<Rightarrow> rat" where
  "spdWalk dailyRate running cursor periodEnd [] =
     dailyRate * running * of_int (specDaysBetween cursor periodEnd)"
| "spdWalk dailyRate running cursor periodEnd (ev # evs) =
     dailyRate * running * of_int (specDaysBetween cursor (ev_date ev))
     + spdWalk dailyRate
         (case ev_kind ev of Charge \<Rightarrow> running + ev_amount ev | Payment \<Rightarrow> running - ev_amount ev)
         (ev_date ev) periodEnd evs"

text \<open>
  Modelled from the spec: \<open>computeSpdInterests\<close>. The interest on the balance
  is the walk over all events; the informational bonifiable figure is taken
  as the same walk over the period's charges alone.
\<close>

definition specSpdInterests ::
  "rat \<Rightarrow> event list \<Rightarrow> rat \<Rightarrow> jsdate \<Rightarrow> jsdate \<Rightarrow> rat \<times> rat" where
  "specSpdInterests previousBalance periodEvents annualRateUnit startPeriod statementDate =
     (spdWalk (annualRateUnit / 365) previousBalance startPeriod statementDate periodEvents,
      spdWalk (annualRateUnit / 365) 0 startPeriod statementDate
        (filter (\<lambda>ev. ev_kind ev = Charge) periodEvents))"

text \<open>
  Modelled from the spec: \<open>computeInterestCarryOver\<close> of the statement
  calculator. A previous statement paid in full carries nothing over;
  otherwise its interest is carried, up to what remains unpaid.
\<close>

definition specInterestCarryOver :: "credit_history \<Rightarrow> rat \<Rightarrow> rat" where
  "specInterestCarryOver prev prevPaid =
     (let due = (case h_statementBalance prev of Some b \<Rightarrow> b | None \<Rightarrow> 0)
      in if prevPaid \<ge> due then 0 else min (h_interests prev) (due - prevPaid))"

text \<open>
  Modelled from the spec: \<open>sumPaymentsForDebt(debtId, fromDate, toDate)\<close> of
  the sheets service, the sum of the debt's payments dated from \<open>fromDate\<close> to
  \<open>toDate\<close>, both included.
\<close>

definition specSumPaymentsForDebt :: "expense list \<Rightarrow> string \<Rightarrow> string \<Rightarrow> string \<Rightarrow> rat" where
  "specSumPaymentsForDebt allExpenses debtId fromDate toDate =
     sum_list (map (\<lambda>x. case e_amount x of None \<Rightarrow> 0 | Some a \<Rightarrow> a)
       (filter (\<lambda>x. e_debtId x = debtId \<and> toLowerCase (e_entryType x) = ''payment''
                     \<and> fromDate \<le> e_date x \<and> e_date x \<le> toDate) allExpenses))"

definition march15 :: jsdate where
  "march15 = \<lparr> getFullYear = 2025, getMonth = 2, getDate = 15 \<rparr>"

definition sampleEnv :: env where
  "sampleEnv =
     \<lparr> failing = [],
       today = march15,
       tzEast = False,
       parseDateFallback = (\<lambda>s. None),
       nextDateForDayOfMonth = specNextDateForDayOfMonth,
       daysBetweenDates = specDaysBetween,
       computeSpdInterests = specSpdInterests,
       computeInterestCarryOver = specInterestCarryOver,
       sumPaymentsForDebt = specSumPaymentsForDebt \<rparr>"

definition sampleDebt :: debt_row where
  "sampleDebt =
     \<lparr> d_id = ''d1'', d_balance = Some 1000, d_dueDay = Some 5, d_cutOffDay = Some 15,
       d_interesEfectivo = 36, d_active = True \<rparr>"

definition sampleExpenses :: "expense list" where
  "sampleExpenses =
     [\<lparr> e_debtId = ''d1'', e_date = ''2025-02-20'', e_entryType = ''Charge'', e_amount = Some 200 \<rparr>,
      \<lparr> e_debtId = ''d1'', e_date = ''2025-03-01'', e_entryType = ''charge'', e_amount = Some 50 \<rparr>,
      \<lparr> e_debtId = ''d1'', e_date = ''2025-03-01'', e_entryType = ''PAYMENT'', e_amount = Some 300 \<rparr>,
      \<lparr> e_debtId = ''d1'', e_date = ''2025-03-02'', e_entryType = ''refund'', e_amount = Some 10 \<rparr>,
      \<lparr> e_debtId = ''d1'', e_date = ''2025-03-03'', e_entryType = ''charge'', e_amount = None \<rparr>,
      \<lparr> e_debtId = ''d2'', e_date = ''2025-03-04'', e_entryType = ''charge'', e_amount = Some 70 \<rparr>]"

definition sampleSheet :: sheet where
  "sampleSheet = \<lparr> debts = [sampleDebt], creditHistory = [], expenses = sampleExpenses \<rparr>"

definition noOptions :: options where
  "noOptions = \<lparr> o_recompute = False, o_dateParam = None, o_periodParam = None \<rparr>"

definition sampleRecord :: credit_history where
  "sampleRecord =
     \<lparr> h_debtId = ''d1'', h_statementDate = ''2025-03-15'', h_dueDate = ''2025-04-05'',
       h_previousBalance = 1000, h_charges = 250, h_interests = 693 / 25, h_payments = 300,
       h_statementBalance = Some (24443 / 25), h_bonifiableInterest = 523 / 100,
       h_installmentBalance = 19659 / 20, h_annualEffectiveRate = 9 / 25,
       h_termMonths = None, h_periodDays = 27, h_paymentMade = 0 \<rparr>"

definition sampleSheetAfter :: sheet where
  "sampleSheetAfter =
     \<lparr> debts = [sampleDebt\<lparr> d_balance := Some (24443 / 25) \<rparr>],
       creditHistory = [sampleRecord],
       expenses = sampleExpenses \<rparr>"

text \<open>The idempotency key of a ledger record.\<close>

definition histKey :: "credit_history \<Rightarrow> string \<times> string" where
  "histKey h = (h_debtId h, h_statementDate h)"

definition sampleDebtAfter :: debt_row where
  "sampleDebtAfter = sampleDebt\<lparr> d_balance := Some (24443 / 25) \<rparr>"




definition recomputeOptions :: options where
  "recomputeOptions = \<lparr> o_recompute = True, o_dateParam = None, o_periodParam = None \<rparr>"

definition recomputedRecord :: credit_history where
  "recomputedRecord =
     \<lparr> h_debtId = ''d1'', h_statementDate = ''2025-03-15'', h_dueDate = ''2025-04-05'',
       h_previousBalance = 24443 / 25, h_charges = 250, h_interests = 678 / 25,
       h_payments = 300, h_statementBalance = Some (23871 / 25),
       h_bonifiableInterest = 523 / 100, h_installmentBalance = 96007 / 100,
       h_annualEffectiveRate = 9 / 25, h_termMonths = None, h_periodDays = 27,
       h_paymentMade = 0 \<rparr>"

definition recomputedSheet :: sheet where
  "recomputedSheet =
     \<lparr> debts = [sampleDebt\<lparr> d_balance := Some (23871 / 25) \<rparr>],
       creditHistory = [recomputedRecord],
       expenses = sampleExpenses \<rparr>"

definition updateDebtDownEnv :: env where
  "updateDebtDownEnv = sampleEnv\<lparr> failing := [UpdateDebt] \<rparr>"

definition halfWrittenSheet :: sheet where
  "halfWrittenSheet =
     \<lparr> debts = [sampleDebt], creditHistory = [sampleRecord], expenses = sampleExpenses \<rparr>"

text \<open>
  Three users for a batch run on the 15th: the first and the third with a
  valid token and the concrete sheet, the second with an expired token whose
  refresh fails.
\<close>

definition sampleBatch :: batch_env where
  "sampleBatch =
     \<lparr> fetchSheet = (\<lambda>sheetId token. if token = ''expired'' then ProbeStatus 401 else ProbeStatus 200),
       refreshAccessToken = (\<lambda>token. if token = ''revoked'' then None else Some ''fresh''),
       updateUserTokensThrows = (\<lambda>googleId. False),
       serviceEnv = (\<lambda>token sheetId. sampleEnv),
       todayDay = 15 \<rparr>"

definition userA :: user where
  "userA = \<lparr> u_id = ''1'', u_googleId = ''g1'', u_sheetId = ''s1'', u_accessToken = ''valid'',
             u_refreshToken = ''r1'', u_sheet = sampleSheet \<rparr>"

definition userExpired :: user where
  "userExpired = \<lparr> u_id = ''2'', u_googleId = ''g2'', u_sheetId = ''s2'',
                   u_accessToken = ''expired'', u_refreshToken = ''revoked'',
                   u_sheet = sampleSheet \<rparr>"

definition userB :: user where
  "userB = \<lparr> u_id = ''3'', u_googleId = ''g3'', u_sheetId = ''s3'', u_accessToken = ''valid'',
             u_refreshToken = ''r3'', u_sheet = sampleSheet \<rparr>"

definition debt31 :: debt_row where
  "debt31 = sampleDebt\<lparr> d_id := ''d31'', d_cutOffDay := Some 31 \<rparr>"

definition feb28 :: jsdate where
  "feb28 = \<lparr> getFullYear = 2025, getMonth = 1, getDate = 28 \<rparr>"

definition zeroCounts :: counts where
  "zeroCounts = \<lparr> totalProcessed = 0, totalSkipped = 0, totalErrors = 0 \<rparr>"

definition userAAfter :: user where
  "userAAfter = userA\<lparr> u_sheet := sampleSheetAfter \<rparr>"

definition userBAfter :: user where
  "userBAfter = userB\<lparr> u_sheet := sampleSheetAfter \<rparr>"

definition getDebtsObjectsDownBatch :: batch_env where
  "getDebtsObjectsDownBatch =
     sampleBatch\<lparr> serviceEnv := (\<lambda>token sheetId. sampleEnv\<lparr> failing := [GetDebtsObjects] \<rparr>) \<rparr>"

definition accrueDownEnv :: env where
  "accrueDownEnv = sampleEnv\<lparr> failing := [GetExpensesObjects] \<rparr>"

definition feb16 :: jsdate where
  "feb16 = \<lparr> getFullYear = 2025, getMonth = 1, getDate = 16 \<rparr>"



definition feb20 :: jsdate where
  "feb20 = \<lparr> getFullYear = 2025, getMonth = 1, getDate = 20 \<rparr>"

definition feb15 :: jsdate where
  "feb15 = \<lparr> getFullYear = 2025, getMonth = 1, getDate = 15 \<rparr>"

definition cutoffDayCharge :: expense where
  "cutoffDayCharge =
     \<lparr> e_debtId = ''d1'', e_date = ''2025-02-15'', e_entryType = ''charge'', e_amount = Some 100 \<rparr>"

section \<open>Properties\<close>

subsection \<open>Rounding\<close>



subsection \<open>What a computed result tells about the call\<close>


lemma buildRecord_rate:
  assumes "buildRecord e sh debtId debt statementDate = Inr record"
  shows "h_annualEffectiveRate record = normalizeAnnualRate (d_interesEfectivo debt)"
  using assms
  by (auto simp: buildRecord_def Let_def split: if_splits)

lemma persist_Computed:
  assumes "persistStatement e sh debtId rc ex prn record sd = (Inr (Computed key r s), sh')"
  shows "r = record \<and> s = h_statementDate record"
  using assms
  by (auto simp: persistStatement_def Let_def split: if_splits)

lemma accrue_Computed:
  assumes "accrueDebtInternal e sh debtId opts = (Inr (Computed key record sds), sh')"
  shows "\<exists>debt statementDate. findDebt (debts sh) debtId = Some debt
           \<and> buildRecord e sh debtId debt statementDate = Inr record"
  using assms
  by (auto simp: accrueDebtInternal_def Let_def split: if_splits option.splits sum.splits
           dest!: persist_Computed)

subsection \<open>The ledger after a call\<close>

lemma findRowFrom_Some:
  "findRowFrom n hs d s = Some r \<Longrightarrow>
     n \<le> r \<and> r - n < length hs \<and> histKey (hs ! (r - n)) = (d, s)"
proof (induction hs arbitrary: n)
  case Nil
  then show ?case by simp
next
  case (Cons h hs)
  show ?case
  proof (cases "h_debtId h = d \<and> h_statementDate h = s")
    case True
    with Cons.prems show ?thesis by (simp add: histKey_def)
  next
    case False
    with Cons.prems have "findRowFrom (Suc n) hs d s = Some r" by auto
    from Cons.IH [OF this] have "Suc n \<le> r" "r - Suc n < length hs"
      "histKey (hs ! (r - Suc n)) = (d, s)" by auto
    moreover from \<open>Suc n \<le> r\<close> have "r - n = Suc (r - Suc n)" by simp
    ultimately show ?thesis by simp
  qed
qed

lemma findRowFrom_None:
  "findRowFrom n hs d s = None \<Longrightarrow> \<not> existsInHistory hs d s"
  by (induction hs arbitrary: n) (auto simp: existsInHistory_def split: if_splits)

lemma existsInHistory_iff:
  "existsInHistory hs d s \<longleftrightarrow> (d, s) \<in> set (map histKey hs)"
  by (auto simp: existsInHistory_def list_ex_iff histKey_def)

lemma loadPreviousRow_Inr:
  assumes "loadPreviousRow e hs d s ex rc = Inr prn"
  shows "prn = (if ex \<and> rc then findCreditHistoryRow hs d s else None)"
  using assms by (auto simp: loadPreviousRow_def split: if_splits option.splits)

lemma persistStatement_cases:
  assumes "persistStatement e sh debtId rc ex prn record sd = (res, sh')"
  shows "(\<exists>op. res = Inl (Upstream op) \<and> op \<noteq> UpdateDebt \<and> sh' = sh)
       \<or> ((res = Inl (Upstream UpdateDebt)
            \<or> res = Inr (Computed (debtId @ ''|'' @ h_statementDate record) record
                           (h_statementDate record)))
          \<and> expenses sh' = expenses sh
          \<and> (res = Inl (Upstream UpdateDebt) \<longrightarrow> debts sh' = debts sh)
          \<and> (res \<noteq> Inl (Upstream UpdateDebt) \<longrightarrow>
                (\<exists>bal. debts sh' = updateDebt (debts sh) debtId bal))
          \<and> creditHistory sh' =
              (if ex \<and> rc \<and> (case prn of None \<Rightarrow> False | Some r \<Rightarrow> r \<noteq> 0)
               then updateCreditHistoryRow (creditHistory sh) (case prn of None \<Rightarrow> 0 | Some r \<Rightarrow> r) record
               else appendCreditHistoryRecord (creditHistory sh) record))"
  using assms
  by (auto simp: persistStatement_def Let_def split: if_splits)

lemma resolveStatementDate_Inl:
  "resolveStatementDate debt base pp = Inl err \<Longrightarrow> err \<noteq> Upstream UpdateDebt"
  by (auto simp: resolveStatementDate_def Let_def split: if_splits option.splits)

lemma loadPreviousRow_Inl:
  "loadPreviousRow e hs d s ex rc = Inl err \<Longrightarrow> err \<noteq> Upstream UpdateDebt"
  by (auto simp: loadPreviousRow_def split: if_splits option.splits)

lemma buildRecord_Inl:
  "buildRecord e sh debtId debt sd = Inl err \<Longrightarrow> err \<noteq> Upstream UpdateDebt"
  by (auto simp: buildRecord_def Let_def split: if_splits)

lemma accrue_cases:
  assumes "accrueDebtInternal e sh debtId opts = (res, sh')"
  shows "(sh' = sh \<and> (\<forall>k r s. res \<noteq> Inr (Computed k r s)) \<and> res \<noteq> Inl (Upstream UpdateDebt))
       \<or> (\<exists>debt sd record.
            \<not> fails e GetDebts \<and> \<not> fails e GetCreditHistoryObjects
          \<and> findDebt (debts sh) debtId = Some debt \<and> d_active debt
          \<and> resolveStatementDate debt
               (dateOnly (case o_dateParam opts of Some d \<Rightarrow> d | None \<Rightarrow> today e))
               (o_periodParam opts) = Inr sd
          \<and> buildRecord e sh debtId debt sd = Inr record
          \<and> (res = Inl (Upstream UpdateDebt)
              \<or> res = Inr (Computed (debtId @ ''|'' @ h_statementDate record) record
                           (h_statementDate record)))
          \<and> expenses sh' = expenses sh
          \<and> (res = Inl (Upstream UpdateDebt) \<longrightarrow> debts sh' = debts sh)
          \<and> (res \<noteq> Inl (Upstream UpdateDebt) \<longrightarrow>
                (\<exists>bal. debts sh' = updateDebt (debts sh) debtId bal))
          \<and> creditHistory sh' =
              (if existsInHistory (creditHistory sh) debtId (toISODate e sd)
               then updateCreditHistoryRow (creditHistory sh)
                      (case findCreditHistoryRow (creditHistory sh) debtId (toISODate e sd) of
                         None \<Rightarrow> 0 | Some r \<Rightarrow> r) record
               else appendCreditHistoryRecord (creditHistory sh) record))"
proof (cases "sh' = sh \<and> (\<forall>k r s. res \<noteq> Inr (Computed k r s)) \<and> res \<noteq> Inl (Upstream UpdateDebt)")
  case True
  then show ?thesis by simp
next
  case changed: False
  let ?base = "dateOnly (case o_dateParam opts of Some d \<Rightarrow> d | None \<Rightarrow> today e)"
  let ?hist = "creditHistory sh"
  from assms changed have ok1: "\<not> fails e GetDebts"
    by (auto simp: accrueDebtInternal_def Let_def)
  from assms changed ok1 obtain debt where debt: "findDebt (debts sh) debtId = Some debt"
    by (cases "findDebt (debts sh) debtId") (auto simp: accrueDebtInternal_def Let_def)
  from assms changed ok1 debt have active: "d_active debt"
    by (auto simp: accrueDebtInternal_def Let_def split: if_splits)
  from assms changed ok1 debt active obtain sd
    where sd: "resolveStatementDate debt ?base (o_periodParam opts) = Inr sd"
    by (cases "resolveStatementDate debt ?base (o_periodParam opts)")
       (auto simp: accrueDebtInternal_def Let_def dest: resolveStatementDate_Inl)
  let ?sds = "toISODate e sd"
  let ?ex = "existsInHistory ?hist debtId ?sds"
  from assms changed ok1 debt active sd have ok2: "\<not> fails e GetCreditHistoryObjects"
    by (auto simp: accrueDebtInternal_def Let_def split: if_splits)
  from assms changed ok1 debt active sd ok2 have go: "\<not> (?ex \<and> \<not> o_recompute opts)"
    by (auto simp: accrueDebtInternal_def Let_def split: if_splits)
  from assms changed ok1 debt active sd ok2 go obtain prn
    where prn: "loadPreviousRow e ?hist debtId ?sds ?ex (o_recompute opts) = Inr prn"
    by (cases "loadPreviousRow e ?hist debtId ?sds ?ex (o_recompute opts)")
       (auto simp: accrueDebtInternal_def Let_def split: if_splits dest: loadPreviousRow_Inl)
  from assms changed ok1 debt active sd ok2 go prn obtain rcd
    where rcd: "buildRecord e sh debtId debt sd = Inr rcd"
    by (cases "buildRecord e sh debtId debt sd")
       (auto simp: accrueDebtInternal_def Let_def split: if_splits dest: buildRecord_Inl)
  from assms ok1 debt active sd ok2 go prn rcd
  have persist: "persistStatement e sh debtId (o_recompute opts) ?ex prn rcd sd = (res, sh')"
    by (auto simp: accrueDebtInternal_def Let_def split: if_splits)
  have prn_eq: "prn = (if ?ex then findCreditHistoryRow ?hist debtId ?sds else None)"
    using loadPreviousRow_Inr [OF prn] go by auto
  have found: "?ex \<Longrightarrow> \<exists>r. findCreditHistoryRow ?hist debtId ?sds = Some r \<and> r \<noteq> 0"
  proof -
    assume ex: ?ex
    then obtain r where r: "findRowFrom 2 ?hist debtId ?sds = Some r"
      using findRowFrom_None [of 2 ?hist debtId ?sds]
      by (cases "findRowFrom 2 ?hist debtId ?sds") auto
    from findRowFrom_Some [OF r] have "2 \<le> r" by simp
    with r show ?thesis by (simp add: findCreditHistoryRow_def)
  qed
  from persistStatement_cases [OF persist] changed
  have "(res = Inl (Upstream UpdateDebt)
            \<or> res = Inr (Computed (debtId @ ''|'' @ h_statementDate rcd) rcd
                           (h_statementDate rcd)))
          \<and> expenses sh' = expenses sh
          \<and> (res = Inl (Upstream UpdateDebt) \<longrightarrow> debts sh' = debts sh)
          \<and> (res \<noteq> Inl (Upstream UpdateDebt) \<longrightarrow>
                (\<exists>bal. debts sh' = updateDebt (debts sh) debtId bal))
          \<and> creditHistory sh' =
              (if ?ex \<and> o_recompute opts \<and> (case prn of None \<Rightarrow> False | Some r \<Rightarrow> r \<noteq> 0)
               then updateCreditHistoryRow ?hist (case prn of None \<Rightarrow> 0 | Some r \<Rightarrow> r) rcd
               else appendCreditHistoryRecord ?hist rcd)"
    by blast
  moreover have "(?ex \<and> o_recompute opts \<and> (case prn of None \<Rightarrow> False | Some r \<Rightarrow> r \<noteq> 0)) = ?ex"
    using go prn_eq found by auto
  ultimately show ?thesis
    using ok1 ok2 debt active sd rcd prn_eq by auto
qed


lemma buildRecord_key:
  assumes "buildRecord e sh debtId debt sd = Inr rcd"
  shows "h_debtId rcd = debtId \<and> h_statementDate rcd = toISODate e sd"
  using assms by (auto simp: buildRecord_def Let_def split: if_splits)

lemma findRow_index:
  assumes "existsInHistory hs d s"
  shows "\<exists>r. findCreditHistoryRow hs d s = Some r \<and> 2 \<le> r \<and> r - 2 < length hs
             \<and> histKey (hs ! (r - 2)) = (d, s)"
proof -
  from assms obtain r where r: "findRowFrom 2 hs d s = Some r"
    using findRowFrom_None [of 2 hs d s] by (cases "findRowFrom 2 hs d s") auto
  from findRowFrom_Some [OF r] r show ?thesis by (simp add: findCreditHistoryRow_def)
qed

lemma distinct_keys_update:
  assumes "distinct (map histKey hs)" "i < length hs" "histKey (hs ! i) = histKey r"
  shows "distinct (map histKey (hs[i := r]))"
proof -
  have "map histKey (hs[i := r]) = (map histKey hs)[i := histKey (hs ! i)]"
    using assms by (simp add: map_update)
  also have "\<dots> = map histKey hs"
    using assms(2) by (simp add: list_update_same_conv)
  finally show ?thesis using assms(1) by simp
qed

lemma distinct_keys_append:
  assumes "distinct (map histKey hs)" "\<not> existsInHistory hs (h_debtId r) (h_statementDate r)"
  shows "distinct (map histKey (hs @ [r]))"
  using assms by (auto simp: existsInHistory_iff histKey_def)

lemma accrue_keeps_distinct_keys:
  assumes "accrueDebtInternal e sh debtId opts = (res, sh')"
      and "distinct (map histKey (creditHistory sh))"
  shows "distinct (map histKey (creditHistory sh'))"
proof (cases "sh' = sh")
  case True
  with assms(2) show ?thesis by simp
next
  case False
  let ?hist = "creditHistory sh"
  from accrue_cases [OF assms(1)] False obtain debt sd rcd
    where rcd: "buildRecord e sh debtId debt sd = Inr rcd"
      and hist': "creditHistory sh' =
              (if existsInHistory ?hist debtId (toISODate e sd)
               then updateCreditHistoryRow ?hist
                      (case findCreditHistoryRow ?hist debtId (toISODate e sd) of
                         None \<Rightarrow> 0 | Some r \<Rightarrow> r) rcd
               else appendCreditHistoryRecord ?hist rcd)"
    by blast
  let ?sds = "toISODate e sd"
    note key = buildRecord_key [OF rcd]
  show ?thesis
  proof (cases "existsInHistory ?hist debtId ?sds")
      case True
      from findRow_index [OF True] obtain r where
        r: "findCreditHistoryRow ?hist debtId ?sds = Some r" "r - 2 < length ?hist"
           "histKey (?hist ! (r - 2)) = (debtId, ?sds)" by blast
      with True hist' have "creditHistory sh' = ?hist[r - 2 := rcd]"
        by (simp add: updateCreditHistoryRow_def)
      moreover have "histKey (?hist ! (r - 2)) = histKey rcd"
        using r key by (simp add: histKey_def)
      ultimately show ?thesis
        using distinct_keys_update [OF assms(2) r(2)] by simp
    next
      case False
      with hist' have "creditHistory sh' = ?hist @ [rcd]"
        by (simp add: appendCreditHistoryRecord_def)
      then show ?thesis
        using distinct_keys_append [OF assms(2), of rcd] False key by simp
  qed
qed

lemma accrue_Computed_ledger:
  assumes "accrueDebtInternal e sh debtId opts = (Inr (Computed key rcd sds), sh')"
  shows "h_debtId rcd = debtId \<and> h_statementDate rcd = sds
       \<and> (existsInHistory (creditHistory sh) debtId sds \<longrightarrow>
            (\<exists>i < length (creditHistory sh).
                histKey (creditHistory sh ! i) = (debtId, sds)
              \<and> creditHistory sh' = (creditHistory sh)[i := rcd]))
       \<and> (\<not> existsInHistory (creditHistory sh) debtId sds \<longrightarrow>
            creditHistory sh' = creditHistory sh @ [rcd])"
proof -
  let ?hist = "creditHistory sh"
  from accrue_cases [OF assms] obtain debt sd rcd'
    where rcd: "buildRecord e sh debtId debt sd = Inr rcd'"
      and res: "Computed key rcd sds = Computed (debtId @ ''|'' @ h_statementDate rcd') rcd'
                           (h_statementDate rcd')"
      and hist': "creditHistory sh' =
              (if existsInHistory ?hist debtId (toISODate e sd)
               then updateCreditHistoryRow ?hist
                      (case findCreditHistoryRow ?hist debtId (toISODate e sd) of
                         None \<Rightarrow> 0 | Some r \<Rightarrow> r) rcd'
               else appendCreditHistoryRecord ?hist rcd')"
    by auto
  from res have same: "rcd' = rcd" and date: "h_statementDate rcd = sds" by simp_all
  from buildRecord_key [OF rcd] same date
  have debt_id: "h_debtId rcd = debtId" and sds: "toISODate e sd = sds" by simp_all
  note hist'' = hist' [unfolded same sds]
  show ?thesis
  proof (cases "existsInHistory ?hist debtId sds")
    case True
    from findRow_index [OF True] obtain r where
      r: "findCreditHistoryRow ?hist debtId sds = Some r" "r - 2 < length ?hist"
         "histKey (?hist ! (r - 2)) = (debtId, sds)" by blast
    from True hist'' r(1) have "creditHistory sh' = ?hist[r - 2 := rcd]"
      by (simp add: updateCreditHistoryRow_def)
    with r(2,3) have "\<exists>i < length ?hist. histKey (?hist ! i) = (debtId, sds)
              \<and> creditHistory sh' = ?hist[i := rcd]"
      by blast
    with True debt_id date show ?thesis by simp
  next
    case False
    with hist'' debt_id date show ?thesis
      by (simp add: appendCreditHistoryRecord_def)
  qed
qed


lemma resolveStatementDate_cutOffDay:
  "d_cutOffDay debt' = d_cutOffDay debt \<Longrightarrow>
     resolveStatementDate debt' base pp = resolveStatementDate debt base pp"
  by (simp add: resolveStatementDate_def Let_def)

lemma findDebt_updateDebt:
  assumes "findDebt rows debtId = Some debt"
  shows "findDebt (updateDebt rows debtId bal) debtId = Some (debt\<lparr> d_balance := Some bal \<rparr>)"
  using assms
  by (induction rows) (auto simp: findDebt_def updateDebt_def split: if_splits)

lemma accrue_skip:
  assumes "\<not> fails e GetDebts" "\<not> fails e GetCreditHistoryObjects"
      and "findDebt (debts sh) debtId = Some debt" "d_active debt"
      and "resolveStatementDate debt
             (dateOnly (case o_dateParam opts of Some d \<Rightarrow> d | None \<Rightarrow> today e))
             (o_periodParam opts) = Inr statementDate"
      and "existsInHistory (creditHistory sh) debtId (toISODate e statementDate)"
      and "\<not> o_recompute opts"
  shows "accrueDebtInternal e sh debtId opts
           = (Inr (Skipped ''Already accrued for this statementDate''
                     (Some (toISODate e statementDate))), sh)"
  using assms by (simp add: accrueDebtInternal_def Let_def)

lemma accrue_twice:
  assumes first: "accrueDebtInternal e sh debtId opts = (Inr (Computed key rcd sds), sh')"
      and "\<not> o_recompute opts"
  shows "accrueDebtInternal e sh' debtId opts
           = (Inr (Skipped ''Already accrued for this statementDate'' (Some sds)), sh')"
proof -
  let ?base = "dateOnly (case o_dateParam opts of Some d \<Rightarrow> d | None \<Rightarrow> today e)"
  from accrue_cases [OF first] obtain debt sd rcd' bal
    where ok: "\<not> fails e GetDebts" "\<not> fails e GetCreditHistoryObjects"
      and debt: "findDebt (debts sh) debtId = Some debt" "d_active debt"
      and sd: "resolveStatementDate debt ?base (o_periodParam opts) = Inr sd"
      and rcd: "buildRecord e sh debtId debt sd = Inr rcd'"
      and res: "Computed key rcd sds = Computed (debtId @ ''|'' @ h_statementDate rcd') rcd'
                           (h_statementDate rcd')"
      and debts': "debts sh' = updateDebt (debts sh) debtId bal"
    by auto
  from res have same: "rcd' = rcd" and date: "h_statementDate rcd = sds" by simp_all
  from buildRecord_key [OF rcd] same date
  have debt_id: "h_debtId rcd = debtId" and sds: "toISODate e sd = sds" by simp_all
  let ?debt' = "debt\<lparr> d_balance := Some bal \<rparr>"
  have 1: "findDebt (debts sh') debtId = Some ?debt'"
    using findDebt_updateDebt [OF debt(1)] debts' by simp
  have 2: "d_active ?debt'" using debt(2) by simp
  have 3: "resolveStatementDate ?debt' ?base (o_periodParam opts) = Inr sd"
    using sd resolveStatementDate_cutOffDay [of ?debt' debt] by simp
  have "rcd \<in> set (creditHistory sh')"
  proof (cases "existsInHistory (creditHistory sh) debtId sds")
    case True
    with accrue_Computed_ledger [OF first] obtain i
      where "i < length (creditHistory sh)" "creditHistory sh' = (creditHistory sh)[i := rcd]"
      by blast
    then show ?thesis by (simp add: set_update_memI)
  next
    case False
    with accrue_Computed_ledger [OF first] show ?thesis by simp
  qed
  with debt_id date have 4: "existsInHistory (creditHistory sh') debtId (toISODate e sd)"
    unfolding sds existsInHistory_def list_ex_iff by blast
  from accrue_skip [OF ok 1 2 3 4 assms(2)] sds show ?thesis by simp
qed

subsection \<open>The model run on the concrete sheet\<close>

lemma sample_accrual:
  "accrueDebtInternal sampleEnv sampleSheet ''d1'' noOptions
     = (Inr (Computed ''d1|2025-03-15'' sampleRecord ''2025-03-15''), sampleSheetAfter)"
  by code_simp


lemma recompute_accrual:
  "accrueDebtInternal sampleEnv sampleSheetAfter ''d1'' recomputeOptions
     = (Inr (Computed ''d1|2025-03-15'' recomputedRecord ''2025-03-15''), recomputedSheet)"
  by code_simp

lemma half_written_accrual:
  "accrueDebtInternal updateDebtDownEnv sampleSheet ''d1'' noOptions
     = (Inl (Upstream UpdateDebt), halfWrittenSheet)"
  by code_simp

subsection \<open>Rate normalization\<close>

text \<open>
  C5. The annual rate is read in either form: a rate above 1 is a percentage
  and is divided by 100, any other rate is kept as the unit fraction it is;
  so 0.18 stays 0.18 and 18 becomes 0.18. The rate that a computed statement
  records is the debt's rate normalized in this way.
\<close>

theorem normalizeAnnualRate_dual_input:
  "(1 < r \<longrightarrow> normalizeAnnualRate r = r / 100)
   \<and> (r \<le> 1 \<longrightarrow> normalizeAnnualRate r = r)
   \<and> normalizeAnnualRate (18 / 100) = 18 / 100
   \<and> normalizeAnnualRate 18 = 18 / 100
   \<and> (accrueDebtInternal e sh debtId opts = (Inr (Computed key record sds), sh')
        \<longrightarrow> (\<exists>debt. findDebt (debts sh) debtId = Some debt
              \<and> h_annualEffectiveRate record = normalizeAnnualRate (d_interesEfectivo debt)))"
  by (auto simp: normalizeAnnualRate_def dest!: accrue_Computed buildRecord_rate)

theorem normalizeAnnualRate_dual_input_witness:
  "1 < (36 :: rat) \<and> normalizeAnnualRate 36 = 36 / 100
   \<and> (1 / 2 :: rat) \<le> 1 \<and> normalizeAnnualRate (1 / 2) = 1 / 2
   \<and> accrueDebtInternal sampleEnv sampleSheet ''d1'' noOptions
        = (Inr (Computed ''d1|2025-03-15'' sampleRecord ''2025-03-15''), sampleSheetAfter)
   \<and> (\<exists>debt. findDebt (debts sampleSheet) ''d1'' = Some debt
         \<and> h_annualEffectiveRate sampleRecord = normalizeAnnualRate (d_interesEfectivo debt))"
  using normalizeAnnualRate_dual_input
          [of 36 sampleEnv sampleSheet "''d1''" noOptions "''d1|2025-03-15''" sampleRecord
              "''2025-03-15''" sampleSheetAfter]
        normalizeAnnualRate_dual_input [of "1 / 2"]
        sample_accrual
  by simp

subsection \<open>Idempotency\<close>

text \<open>
  C1. When the debt is loaded and active, the statement date resolves, and the
  ledger already holds a record for the debt and that statement date, a call
  with \<open>recompute = false\<close> returns the skipped result carrying that statement
  date and leaves the sheet, ledger and debt balance included, as it was. So a
  second call after a computed one, with the same options, is skipped and
  changes nothing.
\<close>

theorem accrue_idempotent_skip:
  "(\<not> fails e GetDebts \<and> \<not> fails e GetCreditHistoryObjects
      \<and> findDebt (debts sh) debtId = Some debt \<and> d_active debt
      \<and> resolveStatementDate debt
           (dateOnly (case o_dateParam opts of Some d \<Rightarrow> d | None \<Rightarrow> today e))
           (o_periodParam opts) = Inr statementDate
      \<and> existsInHistory (creditHistory sh) debtId (toISODate e statementDate)
      \<and> \<not> o_recompute opts
    \<longrightarrow> accrueDebtInternal e sh debtId opts
          = (Inr (Skipped ''Already accrued for this statementDate''
                    (Some (toISODate e statementDate))), sh))
   \<and> (accrueDebtInternal e sh debtId opts = (Inr (Computed key rcd sds), sh')
        \<and> \<not> o_recompute opts
      \<longrightarrow> accrueDebtInternal e sh' debtId opts
            = (Inr (Skipped ''Already accrued for this statementDate'' (Some sds)), sh'))"
  using accrue_skip [of e sh debtId debt opts statementDate]
        accrue_twice [of e sh debtId opts key rcd sds sh']
  by blast

theorem accrue_idempotent_skip_witness:
  "\<not> fails sampleEnv GetDebts \<and> \<not> fails sampleEnv GetCreditHistoryObjects
   \<and> findDebt (debts sampleSheetAfter) ''d1'' = Some sampleDebtAfter \<and> d_active sampleDebtAfter
   \<and> resolveStatementDate sampleDebtAfter (dateOnly (today sampleEnv)) None = Inr march15
   \<and> existsInHistory (creditHistory sampleSheetAfter) ''d1'' (toISODate sampleEnv march15)
   \<and> \<not> o_recompute noOptions
   \<and> accrueDebtInternal sampleEnv sampleSheet ''d1'' noOptions
        = (Inr (Computed ''d1|2025-03-15'' sampleRecord ''2025-03-15''), sampleSheetAfter)
   \<and> accrueDebtInternal sampleEnv sampleSheetAfter ''d1'' noOptions
        = (Inr (Skipped ''Already accrued for this statementDate'' (Some ''2025-03-15'')),
           sampleSheetAfter)"
proof -
  have h: "\<not> fails sampleEnv GetDebts" "\<not> fails sampleEnv GetCreditHistoryObjects"
    "findDebt (debts sampleSheetAfter) ''d1'' = Some sampleDebtAfter" "d_active sampleDebtAfter"
    "resolveStatementDate sampleDebtAfter (dateOnly (today sampleEnv)) None = Inr march15"
    "existsInHistory (creditHistory sampleSheetAfter) ''d1'' (toISODate sampleEnv march15)"
    "\<not> o_recompute noOptions" "toISODate sampleEnv march15 = ''2025-03-15''"
    "o_dateParam noOptions = None" "o_periodParam noOptions = None"
    by code_simp+
  show ?thesis
    using h sample_accrual
      accrue_idempotent_skip [of sampleEnv sampleSheetAfter "''d1''" sampleDebtAfter noOptions
        march15]
      accrue_idempotent_skip [of sampleEnv sampleSheet "''d1''" sampleDebt noOptions
        march15 "''d1|2025-03-15''" sampleRecord "''2025-03-15''" sampleSheetAfter]
    by simp
qed


lemma accrue_runs:
  assumes "failing e = []"
      and "findDebt (debts sh) debtId = Some debt" "d_active debt"
      and "resolveStatementDate debt
             (dateOnly (case o_dateParam opts of Some d \<Rightarrow> d | None \<Rightarrow> today e))
             (o_periodParam opts) = Inr sd"
      and "existsInHistory (creditHistory sh) debtId (toISODate e sd) \<longrightarrow> o_recompute opts"
  shows "\<exists>rcd sh'. accrueDebtInternal e sh debtId opts
           = (Inr (Computed (debtId @ ''|'' @ toISODate e sd) rcd (toISODate e sd)), sh')"
proof -
  have nofail: "\<not> fails e op" for op
    using assms(1) by (simp add: fails_def)
  have "\<exists>prn. loadPreviousRow e (creditHistory sh) debtId (toISODate e sd)
      (existsInHistory (creditHistory sh) debtId (toISODate e sd)) (o_recompute opts) = Inr prn"
    by (simp add: loadPreviousRow_def nofail split: option.splits)
  then obtain prn where prn: "loadPreviousRow e (creditHistory sh) debtId (toISODate e sd)
      (existsInHistory (creditHistory sh) debtId (toISODate e sd)) (o_recompute opts) = Inr prn"
    by blast
  obtain rcd where rcd: "buildRecord e sh debtId debt sd = Inr rcd"
    by (simp add: buildRecord_def Let_def nofail)
  from buildRecord_key [OF rcd] have key: "h_statementDate rcd = toISODate e sd" by simp
  show ?thesis
    using assms(2-5) prn rcd key
    by (simp add: accrueDebtInternal_def Let_def nofail persistStatement_def)
qed

subsection \<open>The statement balance\<close>




subsection \<open>Recompute\<close>

text \<open>
  C4. When the ledger already holds a record for the debt and the resolved
  statement date, a call with \<open>recompute = true\<close> never lengthens the ledger and
  keeps the keys (debtId, statementDate) of the ledger distinct when they were;
  a computed result has replaced, at its own row, a record that had this key
  with the new record of the same key; and when no call of the service throws,
  the result is a computed one.
\<close>

theorem recompute_overwrites_in_place:
  assumes "findDebt (debts sh) debtId = Some debt" "d_active debt"
      and "resolveStatementDate debt
             (dateOnly (case o_dateParam opts of Some d \<Rightarrow> d | None \<Rightarrow> today e))
             (o_periodParam opts) = Inr sd"
      and "existsInHistory (creditHistory sh) debtId (toISODate e sd)"
      and "o_recompute opts"
      and "accrueDebtInternal e sh debtId opts = (res, sh')"
  shows "length (creditHistory sh') = length (creditHistory sh)
       \<and> (distinct (map histKey (creditHistory sh))
            \<longrightarrow> distinct (map histKey (creditHistory sh')))
       \<and> (res = Inr (Computed key rcd sds) \<longrightarrow>
            sds = toISODate e sd \<and> histKey rcd = (debtId, sds)
          \<and> (\<exists>i < length (creditHistory sh).
                histKey (creditHistory sh ! i) = (debtId, sds)
              \<and> creditHistory sh' = (creditHistory sh)[i := rcd]))
       \<and> (failing e = [] \<longrightarrow> (\<exists>k r. res = Inr (Computed k r (toISODate e sd))))"
proof (intro conjI)
  show "distinct (map histKey (creditHistory sh))
           \<longrightarrow> distinct (map histKey (creditHistory sh'))"
    using accrue_keeps_distinct_keys [OF assms(6)] by blast
  show "failing e = [] \<longrightarrow> (\<exists>k r. res = Inr (Computed k r (toISODate e sd)))"
    using accrue_runs [OF _ assms(1-3)] assms(5,6) by auto
  show "length (creditHistory sh') = length (creditHistory sh)"
  proof (cases "sh' = sh")
    case True
    then show ?thesis by simp
  next
    case False
    with accrue_cases [OF assms(6)] assms(1,3) obtain rcd' where
      "creditHistory sh' =
              (if existsInHistory (creditHistory sh) debtId (toISODate e sd)
               then updateCreditHistoryRow (creditHistory sh)
                      (case findCreditHistoryRow (creditHistory sh) debtId (toISODate e sd) of
                         None \<Rightarrow> 0 | Some r \<Rightarrow> r) rcd'
               else appendCreditHistoryRecord (creditHistory sh) rcd')"
      by auto
    with assms(4) show ?thesis by (simp add: updateCreditHistoryRow_def)
  qed
  show "res = Inr (Computed key rcd sds) \<longrightarrow>
           sds = toISODate e sd \<and> histKey rcd = (debtId, sds)
         \<and> (\<exists>i < length (creditHistory sh).
               histKey (creditHistory sh ! i) = (debtId, sds)
             \<and> creditHistory sh' = (creditHistory sh)[i := rcd])"
  proof
    assume res: "res = Inr (Computed key rcd sds)"
    with assms(6) have run: "accrueDebtInternal e sh debtId opts = (Inr (Computed key rcd sds), sh')"
      by simp
    from accrue_cases [OF run] assms(1,3) have "buildRecord e sh debtId debt sd = Inr rcd"
      by auto
    from buildRecord_key [OF this] accrue_Computed_ledger [OF run]
    have "sds = toISODate e sd" "histKey rcd = (debtId, sds)"
      by (simp_all add: histKey_def)
    with accrue_Computed_ledger [OF run] assms(4)
    show "sds = toISODate e sd \<and> histKey rcd = (debtId, sds)
         \<and> (\<exists>i < length (creditHistory sh).
               histKey (creditHistory sh ! i) = (debtId, sds)
             \<and> creditHistory sh' = (creditHistory sh)[i := rcd])"
      by simp
  qed
qed

theorem recompute_overwrites_in_place_witness:
  "findDebt (debts sampleSheetAfter) ''d1'' = Some sampleDebtAfter \<and> d_active sampleDebtAfter
   \<and> resolveStatementDate sampleDebtAfter (dateOnly (today sampleEnv)) None = Inr march15
   \<and> existsInHistory (creditHistory sampleSheetAfter) ''d1'' (toISODate sampleEnv march15)
   \<and> o_recompute recomputeOptions
   \<and> accrueDebtInternal sampleEnv sampleSheetAfter ''d1'' recomputeOptions
        = (Inr (Computed ''d1|2025-03-15'' recomputedRecord ''2025-03-15''), recomputedSheet)
   \<and> distinct (map histKey (creditHistory sampleSheetAfter))
   \<and> failing sampleEnv = []
   \<and> length (creditHistory recomputedSheet) = length (creditHistory sampleSheetAfter)
   \<and> distinct (map histKey (creditHistory recomputedSheet))
   \<and> histKey recomputedRecord = (''d1'', ''2025-03-15'')
   \<and> (\<exists>i < length (creditHistory sampleSheetAfter).
         histKey (creditHistory sampleSheetAfter ! i) = (''d1'', ''2025-03-15'')
         \<and> creditHistory recomputedSheet = (creditHistory sampleSheetAfter)[i := recomputedRecord])"
proof -
  have h: "findDebt (debts sampleSheetAfter) ''d1'' = Some sampleDebtAfter"
    "d_active sampleDebtAfter"
    "resolveStatementDate sampleDebtAfter (dateOnly (today sampleEnv)) None = Inr march15"
    "existsInHistory (creditHistory sampleSheetAfter) ''d1'' (toISODate sampleEnv march15)"
    "o_recompute recomputeOptions"
    by code_simp+
  have g: "o_dateParam recomputeOptions = None" "o_periodParam recomputeOptions = None"
    "distinct (map histKey (creditHistory sampleSheetAfter))" "failing sampleEnv = []"
    "toISODate sampleEnv march15 = ''2025-03-15''"
    by code_simp+
  have r: "resolveStatementDate sampleDebtAfter
             (dateOnly (case o_dateParam recomputeOptions of Some d \<Rightarrow> d | None \<Rightarrow> today sampleEnv))
             (o_periodParam recomputeOptions) = Inr march15"
    using h(3) g(1,2) by simp
  from recompute_overwrites_in_place [OF h(1,2) r h(4,5) recompute_accrual,
      of "''d1|2025-03-15''" recomputedRecord "''2025-03-15''"]
  show ?thesis using h g recompute_accrual by simp
qed

lemma accrue_written:
  assumes "accrueDebtInternal e sh debtId opts = (res, sh')"
      and "sh' \<noteq> sh \<or> res = Inl (Upstream UpdateDebt)"
  shows "\<exists>debt sd rcd. buildRecord e sh debtId debt sd = Inr rcd
           \<and> rcd \<in> set (creditHistory sh')
           \<and> expenses sh' = expenses sh
           \<and> (res = Inl (Upstream UpdateDebt) \<longrightarrow> debts sh' = debts sh)
           \<and> (res = Inl (Upstream UpdateDebt) \<or> (\<exists>k s. res = Inr (Computed k rcd s)))"
proof -
  let ?hist = "creditHistory sh"
  from accrue_cases [OF assms(1)] assms(2) obtain debt sd rcd
    where rcd: "buildRecord e sh debtId debt sd = Inr rcd"
      and res: "res = Inl (Upstream UpdateDebt)
              \<or> res = Inr (Computed (debtId @ ''|'' @ h_statementDate rcd) rcd
                           (h_statementDate rcd))"
      and rest: "expenses sh' = expenses sh"
                "res = Inl (Upstream UpdateDebt) \<longrightarrow> debts sh' = debts sh"
      and hist': "creditHistory sh' =
              (if existsInHistory ?hist debtId (toISODate e sd)
               then updateCreditHistoryRow ?hist
                      (case findCreditHistoryRow ?hist debtId (toISODate e sd) of
                         None \<Rightarrow> 0 | Some r \<Rightarrow> r) rcd
               else appendCreditHistoryRecord ?hist rcd)"
    by blast
  have "rcd \<in> set (creditHistory sh')"
  proof (cases "existsInHistory ?hist debtId (toISODate e sd)")
    case True
    from findRow_index [OF True] obtain r where
      "findCreditHistoryRow ?hist debtId (toISODate e sd) = Some r" "r - 2 < length ?hist"
      by blast
    with True hist' show ?thesis
      by (simp add: updateCreditHistoryRow_def set_update_memI)
  next
    case False
    with hist' show ?thesis by (simp add: appendCreditHistoryRecord_def)
  qed
  with rcd res rest show ?thesis by blast
qed

subsection \<open>Failures\<close>

text \<open>
  C7, as the code has it. A debtId that the debt table does not hold fails with
  404 \<open>Debt not found\<close> and the sheet untouched. Every failure other than that
  of the final \<open>updateDebt\<close> leaves the sheet untouched, and a sheet that changed
  has received a record that the computation had assembled in full. The ledger
  write is not the last step: \<open>updateDebt\<close> follows it, and when it throws the
  statement record stays written while debts and expenses are as before.
\<close>

theorem accrue_failure_persistence:
  "(\<not> fails e GetDebts \<and> findDebt (debts sh) debtId = None
      \<longrightarrow> accrueDebtInternal e sh debtId opts = (Inl (ApiError 404 ''Debt not found''), sh))
   \<and> (accrueDebtInternal e sh debtId opts = (Inl err, sh') \<and> err \<noteq> Upstream UpdateDebt
      \<longrightarrow> sh' = sh)
   \<and> (accrueDebtInternal e sh debtId opts = (res, sh') \<and> sh' \<noteq> sh
      \<longrightarrow> (\<exists>debt sd rcd. buildRecord e sh debtId debt sd = Inr rcd
             \<and> rcd \<in> set (creditHistory sh')))
   \<and> (accrueDebtInternal e sh debtId opts = (Inl (Upstream UpdateDebt), sh')
      \<longrightarrow> debts sh' = debts sh \<and> expenses sh' = expenses sh
          \<and> (\<exists>debt sd rcd. buildRecord e sh debtId debt sd = Inr rcd
                \<and> rcd \<in> set (creditHistory sh')))"
proof (intro conjI impI)
  assume "\<not> fails e GetDebts \<and> findDebt (debts sh) debtId = None"
  then show "accrueDebtInternal e sh debtId opts = (Inl (ApiError 404 ''Debt not found''), sh)"
    by (simp add: accrueDebtInternal_def)
next
  assume a: "accrueDebtInternal e sh debtId opts = (Inl err, sh') \<and> err \<noteq> Upstream UpdateDebt"
  show "sh' = sh"
  proof (rule ccontr)
    assume "sh' \<noteq> sh"
    with accrue_written [of e sh debtId opts "Inl err" sh'] a show False by auto
  qed
next
  assume "accrueDebtInternal e sh debtId opts = (res, sh') \<and> sh' \<noteq> sh"
  with accrue_written [of e sh debtId opts res sh']
  show "\<exists>debt sd rcd. buildRecord e sh debtId debt sd = Inr rcd \<and> rcd \<in> set (creditHistory sh')"
    by blast
next
  assume a: "accrueDebtInternal e sh debtId opts = (Inl (Upstream UpdateDebt), sh')"
  from accrue_written [OF a] show "debts sh' = debts sh" by blast
  from accrue_written [OF a] show "expenses sh' = expenses sh" by blast
  from accrue_written [OF a]
  show "\<exists>debt sd rcd. buildRecord e sh debtId debt sd = Inr rcd \<and> rcd \<in> set (creditHistory sh')"
    by blast
qed

theorem accrue_failure_persistence_witness:
  "\<not> fails sampleEnv GetDebts \<and> findDebt (debts sampleSheet) ''zz'' = None
   \<and> accrueDebtInternal sampleEnv sampleSheet ''zz'' noOptions
        = (Inl (ApiError 404 ''Debt not found''), sampleSheet)
   \<and> accrueDebtInternal updateDebtDownEnv sampleSheet ''d1'' noOptions
        = (Inl (Upstream UpdateDebt), halfWrittenSheet)
   \<and> halfWrittenSheet \<noteq> sampleSheet
   \<and> debts halfWrittenSheet = debts sampleSheet
   \<and> expenses halfWrittenSheet = expenses sampleSheet"
proof -
  have h: "\<not> fails sampleEnv GetDebts" "findDebt (debts sampleSheet) ''zz'' = None"
    "halfWrittenSheet \<noteq> sampleSheet"
    by code_simp+
  show ?thesis
    using h half_written_accrual
      accrue_failure_persistence [of sampleEnv sampleSheet "''zz''" noOptions]
      accrue_failure_persistence [of updateDebtDownEnv sampleSheet "''d1''" noOptions _
        halfWrittenSheet "Inl (Upstream UpdateDebt)"]
    by simp
qed

text \<open>
  C7 as stated fails: with \<open>updateDebt\<close> throwing, the call fails and the ledger,
  empty before, holds the new statement record.
\<close>

theorem accrue_partial_state_counterexample:
  "accrueDebtInternal updateDebtDownEnv sampleSheet ''d1'' noOptions
     = (Inl (Upstream UpdateDebt), halfWrittenSheet)
   \<and> creditHistory sampleSheet = []
   \<and> creditHistory halfWrittenSheet = [sampleRecord]"
  using half_written_accrual by (simp add: sampleSheet_def halfWrittenSheet_def)

subsection \<open>The batch runner\<close>

lemma processDebts_pass:
  assumes "\<not> (d_active debt \<and> d_cutOffDay debt = Some tDay \<and> tDay \<noteq> 0)"
  shows "processDebts e tDay (debt # rest) (sh, c) = processDebts e tDay rest (sh, c)"
  using assms by (auto split: option.splits)

lemma processDebts_trigger:
  assumes "d_active debt" "d_cutOffDay debt = Some tDay" "tDay \<noteq> 0"
  shows "processDebts e tDay (debt # rest) (sh, c) =
           (case accrueDebtInternal e sh (d_id debt) noOptions of
              (res, sh') \<Rightarrow> processDebts e tDay rest (sh', tally res c))"
  using assms by (simp add: noOptions_def)

lemma processDebts_none:
  assumes "\<forall>debt \<in> set ds. \<not> (d_active debt \<and> d_cutOffDay debt = Some tDay \<and> tDay \<noteq> 0)"
  shows "processDebts e tDay ds (sh, c) = (sh, c)"
  using assms
proof (induction ds)
  case Nil
  then show ?case by simp
next
  case (Cons debt ds)
  then have "processDebts e tDay (debt # ds) (sh, c) = processDebts e tDay ds (sh, c)"
    using processDebts_pass [of debt tDay e ds sh c] by simp
  with Cons show ?case by simp
qed

text \<open>
  C9. The batch calls the accrual for a debt exactly when the debt is active
  and its cutOffDay, taken as it is and not clamped to the month, equals
  today's day of the month (a cutOffDay of 0 never matches); any other debt is
  passed over. So on every day of a month that has fewer days than the debt's
  cutOffDay the debt is passed over, and a user whose debts all have such a
  cutOffDay gets no accrual in that month: sheet and counters stay as they are.
\<close>

theorem batch_triggers_on_exact_cutoff_day_only:
  "(\<not> (d_active debt \<and> d_cutOffDay debt = Some tDay \<and> tDay \<noteq> 0)
      \<longrightarrow> processDebts e tDay (debt # rest) (sh, c) = processDebts e tDay rest (sh, c))
   \<and> (d_active debt \<and> d_cutOffDay debt = Some tDay \<and> tDay \<noteq> 0
      \<longrightarrow> processDebts e tDay (debt # rest) (sh, c) =
            (case accrueDebtInternal e sh (d_id debt) noOptions of
               (res, sh') \<Rightarrow> processDebts e tDay rest (sh', tally res c)))
   \<and> (validDate t \<and> d_cutOffDay debt = Some cutOffDay
        \<and> daysInMonth (getFullYear t) (getMonth t) < cutOffDay
      \<longrightarrow> processDebts e (getDate t) (debt # rest) (sh, c)
            = processDebts e (getDate t) rest (sh, c))
   \<and> (validDate t
        \<and> (\<forall>d \<in> set ds. \<exists>k. d_cutOffDay d = Some k
                               \<and> daysInMonth (getFullYear t) (getMonth t) < k)
      \<longrightarrow> processDebts e (getDate t) ds (sh, c) = (sh, c))"
proof (intro conjI impI)
  assume "\<not> (d_active debt \<and> d_cutOffDay debt = Some tDay \<and> tDay \<noteq> 0)"
  then show "processDebts e tDay (debt # rest) (sh, c) = processDebts e tDay rest (sh, c)"
    by (rule processDebts_pass)
next
  assume "d_active debt \<and> d_cutOffDay debt = Some tDay \<and> tDay \<noteq> 0"
  then show "processDebts e tDay (debt # rest) (sh, c) =
            (case accrueDebtInternal e sh (d_id debt) noOptions of
               (res, sh') \<Rightarrow> processDebts e tDay rest (sh', tally res c))"
    using processDebts_trigger by blast
next
  assume a: "validDate t \<and> d_cutOffDay debt = Some cutOffDay
        \<and> daysInMonth (getFullYear t) (getMonth t) < cutOffDay"
  then have "getDate t < cutOffDay" by (simp add: validDate_def)
  with a have "\<not> (d_active debt \<and> d_cutOffDay debt = Some (getDate t) \<and> getDate t \<noteq> 0)"
    by auto
  then show "processDebts e (getDate t) (debt # rest) (sh, c)
            = processDebts e (getDate t) rest (sh, c)"
    by (rule processDebts_pass)
next
  assume a: "validDate t
        \<and> (\<forall>d \<in> set ds. \<exists>k. d_cutOffDay d = Some k
                               \<and> daysInMonth (getFullYear t) (getMonth t) < k)"
  then have "getDate t \<le> daysInMonth (getFullYear t) (getMonth t)"
    by (simp add: validDate_def)
  with a have "\<forall>debt \<in> set ds.
      \<not> (d_active debt \<and> d_cutOffDay debt = Some (getDate t) \<and> getDate t \<noteq> 0)"
    by fastforce
  then show "processDebts e (getDate t) ds (sh, c) = (sh, c)"
    by (rule processDebts_none)
qed

theorem batch_triggers_on_exact_cutoff_day_only_witness:
  "validDate feb28 \<and> d_cutOffDay debt31 = Some 31
   \<and> daysInMonth (getFullYear feb28) (getMonth feb28) < 31
   \<and> dayClamp 2025 1 31 = getDate feb28
   \<and> processDebts sampleEnv (getDate feb28) [debt31] (sampleSheet, zeroCounts)
        = (sampleSheet, zeroCounts)
   \<and> d_active sampleDebt \<and> d_cutOffDay sampleDebt = Some 15
   \<and> processDebts sampleEnv 15 [sampleDebt] (sampleSheet, zeroCounts)
        = (sampleSheetAfter, zeroCounts\<lparr> totalProcessed := 1 \<rparr>)"
proof -
  have h: "validDate feb28" "d_cutOffDay debt31 = Some 31"
    "daysInMonth (getFullYear feb28) (getMonth feb28) < 31"
    "dayClamp 2025 1 31 = getDate feb28"
    "d_active sampleDebt" "d_cutOffDay sampleDebt = Some 15"
    by code_simp+
  have t: "tally (Inr (Computed ''d1|2025-03-15'' sampleRecord ''2025-03-15'')) zeroCounts
             = zeroCounts\<lparr> totalProcessed := 1 \<rparr>"
    by (simp add: tally_def zeroCounts_def)
  have i: "d_id sampleDebt = ''d1''" by code_simp
  have short: "validDate feb28
      \<and> (\<forall>d \<in> set [debt31]. \<exists>k. d_cutOffDay d = Some k
             \<and> daysInMonth (getFullYear feb28) (getMonth feb28) < k)"
    using h by simp
  have w1: "processDebts sampleEnv (getDate feb28) [debt31] (sampleSheet, zeroCounts)
              = (sampleSheet, zeroCounts)"
    using short
      batch_triggers_on_exact_cutoff_day_only
        [of debt31 "getDate feb28" sampleEnv "[]" sampleSheet zeroCounts feb28 31 "[debt31]"]
    by blast
  have "processDebts sampleEnv 15 [sampleDebt] (sampleSheet, zeroCounts)
          = (case accrueDebtInternal sampleEnv sampleSheet (d_id sampleDebt) noOptions of
               (res, sh') \<Rightarrow> processDebts sampleEnv 15 [] (sh', tally res zeroCounts))"
    using h(5,6)
      batch_triggers_on_exact_cutoff_day_only
        [of sampleDebt 15 sampleEnv "[]" sampleSheet zeroCounts]
    by simp
  also have "\<dots> = (sampleSheetAfter, zeroCounts\<lparr> totalProcessed := 1 \<rparr>)"
    using sample_accrual t i by simp
  finally have w2: "processDebts sampleEnv 15 [sampleDebt] (sampleSheet, zeroCounts)
          = (sampleSheetAfter, zeroCounts\<lparr> totalProcessed := 1 \<rparr>)" .
  from h w1 w2 show ?thesis by blast
qed


lemma processUsers_append:
  "processUsers b (xs @ ys) c =
     (case processUsers b xs c of
        (xs', c1) \<Rightarrow> (case processUsers b ys c1 of (ys', c2) \<Rightarrow> (xs' @ ys', c2)))"
  by (induction xs arbitrary: c) (auto split: prod.splits)

lemma processUsers_length: "length (fst (processUsers b us c)) = length us"
proof (induction us arbitrary: c)
  case Nil
  then show ?case by simp
next
  case (Cons u us)
  obtain u' c' where 1: "processUser b u c = (u', c')" by (cases "processUser b u c")
  obtain us' c'' where 2: "processUsers b us c' = (us', c'')" by (cases "processUsers b us c'")
  from Cons [of c'] 2 have "length us' = length us" by simp
  with 1 2 show ?case by simp
qed

lemma processUser_refresh_fails:
  assumes "u_sheetId u \<noteq> []" "u_accessToken u \<noteq> []"
      and "fetchSheet b (u_sheetId u) (u_accessToken u) = ProbeStatus 401"
      and "u_refreshToken u \<noteq> []" "refreshAccessToken b (u_refreshToken u) = None"
  shows "processUser b u c = (u, c)"
  using assms by (simp add: processUser_def)

lemma sample_batch_run:
  "processDebtAccruals sampleBatch [userA, userExpired, userB]
     = ([userAAfter, userExpired, userBAfter],
        \<lparr> totalProcessed = 2, totalSkipped = 0, totalErrors = 0 \<rparr>)"
  by code_simp

text \<open>
  C8, as the code has it. A tenant whose probe answers 401 and whose refresh
  fails is skipped without any counter changing, and the users before and
  after it are processed as if it were not there. A \<open>getDebtsObjects\<close> that
  throws counts one error for the user, an accrual that throws counts one
  error for the debt and the loop goes on with the next debt; every user of
  the list gets its turn.
\<close>

theorem batch_skips_and_counts:
  "(u_sheetId u \<noteq> [] \<and> u_accessToken u \<noteq> []
      \<and> fetchSheet b (u_sheetId u) (u_accessToken u) = ProbeStatus 401
      \<and> u_refreshToken u \<noteq> [] \<and> refreshAccessToken b (u_refreshToken u) = None
    \<longrightarrow> processUser b u c = (u, c)
        \<and> processUsers b (before @ u # after) c =
            (case processUsers b before c of
               (before', c1) \<Rightarrow>
                 (case processUsers b after c1 of
                    (after', c2) \<Rightarrow> (before' @ u # after', c2))))
   \<and> (fails (serviceEnv b token (u_sheetId u)) GetDebtsObjects
    \<longrightarrow> processUserDebts b token u c = (u, c\<lparr> totalErrors := totalErrors c + 1 \<rparr>))
   \<and> (d_active debt \<and> d_cutOffDay debt = Some tDay \<and> tDay \<noteq> 0
      \<and> accrueDebtInternal e sh (d_id debt) noOptions = (Inl err, sh1)
    \<longrightarrow> processDebts e tDay (debt # rest) (sh, c)
          = processDebts e tDay rest (sh1, c\<lparr> totalErrors := totalErrors c + 1 \<rparr>))
   \<and> length (fst (processUsers b us c)) = length us"
proof (intro conjI impI)
  assume a: "u_sheetId u \<noteq> [] \<and> u_accessToken u \<noteq> []
      \<and> fetchSheet b (u_sheetId u) (u_accessToken u) = ProbeStatus 401
      \<and> u_refreshToken u \<noteq> [] \<and> refreshAccessToken b (u_refreshToken u) = None"
  then show skip: "processUser b u c1 = (u, c1)" for c1
    using processUser_refresh_fails by blast
  show "processUsers b (before @ u # after) c =
            (case processUsers b before c of
               (before', c1) \<Rightarrow>
                 (case processUsers b after c1 of
                    (after', c2) \<Rightarrow> (before' @ u # after', c2)))"
    by (simp add: processUsers_append skip split: prod.splits)
next
  assume "fails (serviceEnv b token (u_sheetId u)) GetDebtsObjects"
  then show "processUserDebts b token u c = (u, c\<lparr> totalErrors := totalErrors c + 1 \<rparr>)"
    by (simp add: processUserDebts_def)
next
  assume "d_active debt \<and> d_cutOffDay debt = Some tDay \<and> tDay \<noteq> 0
      \<and> accrueDebtInternal e sh (d_id debt) noOptions = (Inl err, sh1)"
  then show "processDebts e tDay (debt # rest) (sh, c)
          = processDebts e tDay rest (sh1, c\<lparr> totalErrors := totalErrors c + 1 \<rparr>)"
    by (simp add: noOptions_def tally_def)
next
  show "length (fst (processUsers b us c)) = length us"
    by (rule processUsers_length)
qed

text \<open>
  C8 as stated fails: in a run over three users, the second with an expired
  token whose refresh fails, the error counter ends at 0.
\<close>

theorem batch_refresh_failure_uncounted_counterexample:
  "fetchSheet sampleBatch (u_sheetId userExpired) (u_accessToken userExpired) = ProbeStatus 401
   \<and> refreshAccessToken sampleBatch (u_refreshToken userExpired) = None
   \<and> processDebtAccruals sampleBatch [userA, userExpired, userB]
        = ([userAAfter, userExpired, userBAfter],
           \<lparr> totalProcessed = 2, totalSkipped = 0, totalErrors = 0 \<rparr>)"
proof -
  have "fetchSheet sampleBatch (u_sheetId userExpired) (u_accessToken userExpired) = ProbeStatus 401"
    "refreshAccessToken sampleBatch (u_refreshToken userExpired) = None"
    by code_simp+
  with sample_batch_run show ?thesis by blast
qed


theorem batch_skips_and_counts_witness:
  "u_sheetId userExpired \<noteq> [] \<and> u_accessToken userExpired \<noteq> []
   \<and> fetchSheet sampleBatch (u_sheetId userExpired) (u_accessToken userExpired) = ProbeStatus 401
   \<and> u_refreshToken userExpired \<noteq> []
   \<and> refreshAccessToken sampleBatch (u_refreshToken userExpired) = None
   \<and> processUser sampleBatch userExpired zeroCounts = (userExpired, zeroCounts)
   \<and> processUsers sampleBatch ([userA] @ userExpired # [userB]) zeroCounts
        = ([userAAfter] @ userExpired # [userBAfter],
           \<lparr> totalProcessed = 2, totalSkipped = 0, totalErrors = 0 \<rparr>)
   \<and> fails (serviceEnv getDebtsObjectsDownBatch ''valid'' (u_sheetId userA)) GetDebtsObjects
   \<and> processUserDebts getDebtsObjectsDownBatch ''valid'' userA zeroCounts
        = (userA, zeroCounts\<lparr> totalErrors := totalErrors zeroCounts + 1 \<rparr>)
   \<and> d_active sampleDebt \<and> d_cutOffDay sampleDebt = Some 15
   \<and> accrueDebtInternal accrueDownEnv sampleSheet (d_id sampleDebt) noOptions
        = (Inl (Upstream GetExpensesObjects), sampleSheet)
   \<and> processDebts accrueDownEnv 15 [sampleDebt] (sampleSheet, zeroCounts)
        = (sampleSheet, zeroCounts\<lparr> totalErrors := totalErrors zeroCounts + 1 \<rparr>)"
proof -
  have h: "u_sheetId userExpired \<noteq> [] \<and> u_accessToken userExpired \<noteq> []
      \<and> fetchSheet sampleBatch (u_sheetId userExpired) (u_accessToken userExpired) = ProbeStatus 401
      \<and> u_refreshToken userExpired \<noteq> []
      \<and> refreshAccessToken sampleBatch (u_refreshToken userExpired) = None"
    by code_simp
  have g: "fails (serviceEnv getDebtsObjectsDownBatch ''valid'' (u_sheetId userA)) GetDebtsObjects"
    by code_simp
  have d: "d_active sampleDebt \<and> d_cutOffDay sampleDebt = Some 15 \<and> (15::int) \<noteq> 0
      \<and> accrueDebtInternal accrueDownEnv sampleSheet (d_id sampleDebt) noOptions
          = (Inl (Upstream GetExpensesObjects), sampleSheet)"
    by code_simp
  have r1: "processUsers sampleBatch [userA] zeroCounts
              = ([userAAfter], \<lparr> totalProcessed = 1, totalSkipped = 0, totalErrors = 0 \<rparr>)"
    by code_simp
  have r2: "processUsers sampleBatch [userB] \<lparr> totalProcessed = 1, totalSkipped = 0, totalErrors = 0 \<rparr>
              = ([userBAfter], \<lparr> totalProcessed = 2, totalSkipped = 0, totalErrors = 0 \<rparr>)"
    by code_simp
  note T = batch_skips_and_counts
             [of userExpired sampleBatch zeroCounts "[userA]" "[userB]" _ _ _ _ _ _ _ _ "[]"]
  from T h have 1: "processUser sampleBatch userExpired zeroCounts = (userExpired, zeroCounts)"
    by blast
  from T h have "processUsers sampleBatch ([userA] @ userExpired # [userB]) zeroCounts =
            (case processUsers sampleBatch [userA] zeroCounts of
               (before', c1) \<Rightarrow>
                 (case processUsers sampleBatch [userB] c1 of
                    (after', c2) \<Rightarrow> (before' @ userExpired # after', c2)))"
    by blast
  then have 2: "processUsers sampleBatch ([userA] @ userExpired # [userB]) zeroCounts
        = ([userAAfter] @ userExpired # [userBAfter],
           \<lparr> totalProcessed = 2, totalSkipped = 0, totalErrors = 0 \<rparr>)"
    by (simp only: r1 r2 prod.case)
  from g batch_skips_and_counts [of userA getDebtsObjectsDownBatch zeroCounts "[]" "[]" "''valid''"]
  have 3: "processUserDebts getDebtsObjectsDownBatch ''valid'' userA zeroCounts
        = (userA, zeroCounts\<lparr> totalErrors := totalErrors zeroCounts + 1 \<rparr>)"
    by blast
  from d batch_skips_and_counts
           [of userA sampleBatch zeroCounts "[]" "[]" "''valid''" sampleDebt 15 accrueDownEnv
               sampleSheet "Upstream GetExpensesObjects" sampleSheet "[]"]
  have "processDebts accrueDownEnv 15 [sampleDebt] (sampleSheet, zeroCounts)
          = processDebts accrueDownEnv 15 [] (sampleSheet, zeroCounts\<lparr> totalErrors := totalErrors zeroCounts + 1 \<rparr>)"
    by blast
  then have 4: "processDebts accrueDownEnv 15 [sampleDebt] (sampleSheet, zeroCounts)
        = (sampleSheet, zeroCounts\<lparr> totalErrors := totalErrors zeroCounts + 1 \<rparr>)"
    by (simp only: processDebts.simps(1))
  from h g d 1 2 3 4 show ?thesis by blast
qed

subsection \<open>The events of a period\<close>

lemma dateLess_irrefl: "\<not> dateLess a a"
  by (simp add: dateLess_def)

lemma dateLess_trans: "dateLess a b \<Longrightarrow> dateLess b c \<Longrightarrow> dateLess a c"
  by (auto simp: dateLess_def)


lemma dateLess_asym: "dateLess a b \<Longrightarrow> \<not> dateLess b a"
  by (auto simp: dateLess_def)





lemma length_insertBy: "length (insertBy cmp x ys) = Suc (length ys)"
  by (induction ys) auto

lemma length_sortBy: "length (sortBy cmp xs) = length xs"
  by (induction xs) (simp_all add: sortBy_def length_insertBy)









declare gatherPeriodEvents.simps(2) [simp del]














subsection \<open>The windows of consecutive cycles\<close>

lemma daysInMonth_bounds: "28 \<le> daysInMonth y m" "daysInMonth y m \<le> 31"
  by (simp_all add: daysInMonth_def)

lemma normDay_inside:
  "1 \<le> d \<Longrightarrow> d \<le> daysInMonth y m \<Longrightarrow>
     normDay y m d = \<lparr> getFullYear = y, getMonth = m, getDate = d \<rparr>"
  by (subst normDay.simps) simp

lemma normDay_zero:
  "normDay y m 0 =
     (case prevMonthOf y m of
        (y', m') \<Rightarrow> \<lparr> getFullYear = y', getMonth = m', getDate = daysInMonth y' m' \<rparr>)"
proof -
  obtain y' m' where p: "prevMonthOf y m = (y', m')" by (cases "prevMonthOf y m")
  have "normDay y m 0 = normDay y' m' (daysInMonth y' m')"
    by (subst normDay.simps) (simp add: p)
  also have "\<dots> = \<lparr> getFullYear = y', getMonth = m', getDate = daysInMonth y' m' \<rparr>"
    using daysInMonth_bounds [of y' m'] by (intro normDay_inside) simp_all
  finally show ?thesis by (simp add: p)
qed

lemma normDay_after:
  "normDay y m (daysInMonth y m + 1) =
     (case nextMonthOf y m of
        (y', m') \<Rightarrow> \<lparr> getFullYear = y', getMonth = m', getDate = 1 \<rparr>)"
proof -
  obtain y' m' where p: "nextMonthOf y m = (y', m')" by (cases "nextMonthOf y m")
  have "normDay y m (daysInMonth y m + 1) = normDay y' m' 1"
    using daysInMonth_bounds [of y m] by (subst normDay.simps) (simp add: p)
  also have "\<dots> = \<lparr> getFullYear = y', getMonth = m', getDate = 1 \<rparr>"
    using daysInMonth_bounds [of y' m'] by (intro normDay_inside) simp_all
  finally show ?thesis by (simp add: p)
qed

lemma newDate_inside:
  assumes "99 < y" "0 \<le> m" "m \<le> 11" "1 \<le> d" "d \<le> daysInMonth y m"
  shows "newDate y m d = \<lparr> getFullYear = y, getMonth = m, getDate = d \<rparr>"
proof -
  from assms(2,3) have "m div 12 = 0" "m mod 12 = m" by simp_all
  with assms show ?thesis by (simp add: newDate_def normDay_inside)
qed

lemma newDate_lastDay:
  assumes "99 < y" "0 \<le> m" "m \<le> 11"
  shows "newDate y (m + 1) 0 = \<lparr> getFullYear = y, getMonth = m, getDate = daysInMonth y m \<rparr>"
proof (cases "m = 11")
  case True
  with assms show ?thesis
    by (simp add: newDate_def normDay_zero prevMonthOf_def)
next
  case False
  with assms have "(m + 1) div 12 = 0" "(m + 1) mod 12 = m + 1" by simp_all
  with assms show ?thesis
    by (simp add: newDate_def normDay_zero prevMonthOf_def)
qed

lemma dayClamp_eq:
  assumes "99 < y" "0 \<le> m" "m \<le> 11"
  shows "dayClamp y m c = min (max 1 c) (daysInMonth y m)"
  using newDate_lastDay [OF assms] by (simp add: dayClamp_def)

lemma cutoff_date:
  assumes "99 < y" "0 \<le> m" "m \<le> 11"
  shows "newDate y m (dayClamp y m c)
           = \<lparr> getFullYear = y, getMonth = m, getDate = min (max 1 c) (daysInMonth y m) \<rparr>"
  using assms daysInMonth_bounds [of y m]
  by (simp add: dayClamp_eq newDate_inside)

lemma newDate_prevMonth_first:
  assumes "100 < y" "0 \<le> m" "m \<le> 11"
  shows "newDate y (m - 1) 1 =
           (case prevMonthOf y m of
              (y', m') \<Rightarrow> \<lparr> getFullYear = y', getMonth = m', getDate = 1 \<rparr>)"
proof (cases "m = 0")
  case True
  with assms daysInMonth_bounds [of "y - 1" 11] show ?thesis
    by (simp add: newDate_def prevMonthOf_def normDay_inside)
next
  case False
  with assms have "(m - 1) div 12 = 0" "(m - 1) mod 12 = m - 1" by simp_all
  with assms False daysInMonth_bounds [of y "m - 1"] show ?thesis
    by (simp add: newDate_def prevMonthOf_def normDay_inside)
qed

lemma newDate_nextDay:
  assumes "99 < y" "0 \<le> m" "m \<le> 11" "1 \<le> d" "d \<le> daysInMonth y m"
  shows "newDate y m (d + 1) =
           (if d < daysInMonth y m then \<lparr> getFullYear = y, getMonth = m, getDate = d + 1 \<rparr>
            else (case nextMonthOf y m of
                    (y', m') \<Rightarrow> \<lparr> getFullYear = y', getMonth = m', getDate = 1 \<rparr>))"
proof (cases "d < daysInMonth y m")
  case True
  with assms show ?thesis by (simp add: newDate_inside)
next
  case False
  with assms have d: "d = daysInMonth y m" by simp
  from assms(2,3) have "m div 12 = 0" "m mod 12 = m" by simp_all
  with assms show ?thesis
    by (simp add: newDate_def d normDay_after)
qed


lemma dateOnly_valid:
  assumes "99 < getFullYear t" "validDate t"
  shows "dateOnly t = t"
  using assms by (cases t) (simp add: dateOnly_def validDate_def newDate_inside)

lemma prevMonthOf_range:
  assumes "prevMonthOf y m = (y0, m0)" "100 < y" "0 \<le> m" "m \<le> 11"
  shows "99 < y0" "0 \<le> m0" "m0 \<le> 11" "nextMonthOf y0 m0 = (y, m)"
  using assms by (auto simp: prevMonthOf_def nextMonthOf_def split: if_splits)

lemma nextMonthOf_range:
  assumes "nextMonthOf y m = (y1, m1)" "100 < y" "0 \<le> m" "m \<le> 11"
  shows "100 < y1" "0 \<le> m1" "m1 \<le> 11" "prevMonthOf y1 m1 = (y, m)"
  using assms by (auto simp: prevMonthOf_def nextMonthOf_def split: if_splits)

text \<open>The day after a valid date, as the Date constructor computes it.\<close>

lemma nextDay_valid:
  assumes "99 < y" "0 \<le> m" "m \<le> 11" "1 \<le> d" "d \<le> daysInMonth y m"
  shows "validDate (newDate y m (d + 1))" "99 < getFullYear (newDate y m (d + 1))"
  using assms daysInMonth_bounds [of y "m + 1"] daysInMonth_bounds [of "y + 1" 0]
  by (auto simp: newDate_nextDay validDate_def nextMonthOf_def)

lemma period_bounds:
  assumes "d_cutOffDay debt = Some c" "100 < y" "0 \<le> m" "m \<le> 11"
      and "prevMonthOf y m = (y0, m0)"
  shows "dateOnly (newDate y m (dayClamp y m c))
           = \<lparr> getFullYear = y, getMonth = m, getDate = min (max 1 c) (daysInMonth y m) \<rparr>"
    and "prevStatementDateOf debt (newDate y m (dayClamp y m c))
           = \<lparr> getFullYear = y0, getMonth = m0, getDate = min (max 1 c) (daysInMonth y0 m0) \<rparr>"
    and "dateOnly (startPeriodOf (prevStatementDateOf debt (newDate y m (dayClamp y m c))))
           = newDate y0 m0 (min (max 1 c) (daysInMonth y0 m0) + 1)"
proof -
  note r = prevMonthOf_range [OF assms(5,2,3,4)]
  have sd: "newDate y m (dayClamp y m c)
      = \<lparr> getFullYear = y, getMonth = m, getDate = min (max 1 c) (daysInMonth y m) \<rparr>"
    using assms(2-4) by (intro cutoff_date) simp_all
  have v: "validDate \<lparr> getFullYear = y, getMonth = m, getDate = min (max 1 c) (daysInMonth y m) \<rparr>"
    using assms(3,4) daysInMonth_bounds [of y m] by (simp add: validDate_def)
  show "dateOnly (newDate y m (dayClamp y m c))
           = \<lparr> getFullYear = y, getMonth = m, getDate = min (max 1 c) (daysInMonth y m) \<rparr>"
    unfolding sd using assms(2) v by (intro dateOnly_valid) simp_all
  have pm: "newDate y (m - 1) 1 = \<lparr> getFullYear = y0, getMonth = m0, getDate = 1 \<rparr>"
    using newDate_prevMonth_first [OF assms(2-4)] assms(5) by simp
  show prev: "prevStatementDateOf debt (newDate y m (dayClamp y m c))
           = \<lparr> getFullYear = y0, getMonth = m0, getDate = min (max 1 c) (daysInMonth y0 m0) \<rparr>"
    using assms(1) r by (simp add: prevStatementDateOf_def sd pm cutoff_date)
  have "1 \<le> min (max 1 c) (daysInMonth y0 m0)" "min (max 1 c) (daysInMonth y0 m0) \<le> daysInMonth y0 m0"
    using daysInMonth_bounds [of y0 m0] by simp_all
  from nextDay_valid [OF r(1-3) this]
  show "dateOnly (startPeriodOf (prevStatementDateOf debt (newDate y m (dayClamp y m c))))
           = newDate y0 m0 (min (max 1 c) (daysInMonth y0 m0) + 1)"
    by (simp add: prev startPeriodOf_def dateOnly_valid)
qed

lemma no_date_between:
  assumes "validDate t" "0 \<le> m" "m \<le> 11" "1 \<le> d" "d \<le> daysInMonth y m" "99 < y"
  shows "dateLess t \<lparr> getFullYear = y, getMonth = m, getDate = d \<rparr>
       \<or> t = \<lparr> getFullYear = y, getMonth = m, getDate = d \<rparr>
       \<or> dateLessEq (newDate y m (d + 1)) t"
proof -
  obtain ty tm td where t: "t = \<lparr> getFullYear = ty, getMonth = tm, getDate = td \<rparr>"
    by (cases t) auto
  from assms(1) t have v: "0 \<le> tm" "tm \<le> 11" "1 \<le> td" "td \<le> daysInMonth ty tm"
    by (simp_all add: validDate_def)
  note nd = newDate_nextDay [OF assms(6,2,3,4,5)]
  consider (before) "ty < y \<or> (ty = y \<and> tm < m) \<or> (ty = y \<and> tm = m \<and> td < d)"
    | (same) "ty = y \<and> tm = m \<and> td = d"
    | (later_day) "ty = y \<and> tm = m \<and> d < td"
    | (later_month) "ty = y \<and> m < tm"
    | (later_year) "y < ty"
    by linarith
  then show ?thesis
  proof cases
    case before
    then show ?thesis by (auto simp: t dateLess_def)
  next
    case same
    then show ?thesis by (simp add: t)
  next
    case later_day
    with v have "d < daysInMonth y m" by simp
    with later_day show ?thesis
      by (auto simp: nd t dateLessEq_def dateLess_def)
  next
    case later_month
    then have "m \<noteq> 11" using v by simp
    with later_month show ?thesis
      by (auto simp: nd t dateLessEq_def dateLess_def nextMonthOf_def)
         (use v in linarith)+
  next
    case later_year
    with v show ?thesis
      by (auto simp: nd t dateLessEq_def dateLess_def nextMonthOf_def)
  qed
qed

lemma nextDay_greater:
  assumes "0 \<le> m" "m \<le> 11" "1 \<le> d" "d \<le> daysInMonth y m" "99 < y"
  shows "dateLess \<lparr> getFullYear = y, getMonth = m, getDate = d \<rparr> (newDate y m (d + 1))"
  using assms
  by (auto simp: newDate_nextDay dateLess_def nextMonthOf_def)


lemma dateLessEq_less_trans: "dateLessEq a b \<Longrightarrow> dateLess b c \<Longrightarrow> dateLess a c"
  by (auto simp: dateLessEq_def intro: dateLess_trans)

text \<open>
  C3, as the code has it. For a debt with cutoff day \<open>c\<close> and the statement
  dates of two consecutive months (years after 100, which the Date constructor
  takes as they are): the previous statement date of the later cycle is the
  statement date of the earlier one, and the later window begins the day after
  it. The two windows share no day; the earlier statement date lies in neither
  of them; every other calendar day from the start of the earlier window up to
  the later statement date lies in exactly one of them.
\<close>

theorem consecutive_periods_skip_cutoff_day:
  assumes "d_cutOffDay debt = Some c" "100 < y" "0 \<le> m" "m \<le> 11"
      and "nextMonthOf y m = (y1, m1)"
      and "sdN = newDate y m (dayClamp y m c)"
      and "sdN1 = newDate y1 m1 (dayClamp y1 m1 c)"
  shows "prevStatementDateOf debt sdN1 = sdN
       \<and> dateOnly (startPeriodOf (prevStatementDateOf debt sdN1))
           = newDate (getFullYear sdN) (getMonth sdN) (getDate sdN + 1)
       \<and> dateLess (dateOnly sdN) (dateOnly (startPeriodOf (prevStatementDateOf debt sdN1)))
       \<and> \<not> inPeriod debt sdN sdN \<and> \<not> inPeriod debt sdN1 sdN
       \<and> \<not> (inPeriod debt sdN t \<and> inPeriod debt sdN1 t)
       \<and> (validDate t \<and> t \<noteq> sdN
            \<and> dateLessEq (dateOnly (startPeriodOf (prevStatementDateOf debt sdN))) t
            \<and> dateLess t (dateOnly sdN1)
          \<longrightarrow> inPeriod debt sdN t \<or> inPeriod debt sdN1 t)"
proof -
  obtain y0 m0 where p0: "prevMonthOf y m = (y0, m0)" by (cases "prevMonthOf y m")
  note r1 = nextMonthOf_range [OF assms(5,2,3,4)]
  let ?d = "min (max 1 c) (daysInMonth y m)"
  let ?A = "\<lparr> getFullYear = y, getMonth = m, getDate = ?d \<rparr>"
  let ?start1 = "newDate y m (?d + 1)"
  have d: "1 \<le> ?d" "?d \<le> daysInMonth y m"
    using daysInMonth_bounds [of y m] by simp_all
  have y99: "99 < y" using assms(2) by simp
  note bN = period_bounds [OF assms(1,2,3,4) p0]
  note bN1 = period_bounds [OF assms(1) r1(1,2,3,4)]
  have A: "sdN = ?A"
    unfolding assms(6) using y99 assms(3,4) by (rule cutoff_date)
  have A': "dateOnly sdN = ?A" unfolding assms(6) by (rule bN(1))
  have prev1: "prevStatementDateOf debt sdN1 = sdN"
    unfolding assms(7) A by (rule bN1(2))
  have start1: "dateOnly (startPeriodOf (prevStatementDateOf debt sdN1)) = ?start1"
    unfolding assms(7) by (rule bN1(3))
  have gap: "dateLess ?A ?start1"
    using assms(3,4) d y99 by (rule nextDay_greater)
  have in1: "inPeriod debt sdN1 u \<longleftrightarrow> dateLessEq ?start1 u \<and> dateLess u (dateOnly sdN1)" for u
    by (simp add: inPeriod_def start1)
  have inN: "inPeriod debt sdN u \<longleftrightarrow>
      dateLessEq (dateOnly (startPeriodOf (prevStatementDateOf debt sdN))) u \<and> dateLess u ?A" for u
    by (simp add: inPeriod_def A')
  have 1: "\<not> inPeriod debt sdN sdN"
    unfolding inN by (simp add: A dateLess_irrefl)
  have 2: "\<not> inPeriod debt sdN1 sdN"
  proof
    assume "inPeriod debt sdN1 sdN"
    then have "dateLessEq ?start1 sdN" unfolding in1 by simp
    then have "dateLessEq ?start1 ?A" by (simp add: A)
    from this gap have "dateLess ?start1 ?start1"
      by (rule dateLessEq_less_trans)
    then show False by (simp add: dateLess_irrefl)
  qed
  have 3: "\<not> (inPeriod debt sdN t \<and> inPeriod debt sdN1 t)"
  proof
    assume "inPeriod debt sdN t \<and> inPeriod debt sdN1 t"
    then have "dateLess t ?A" "dateLessEq ?start1 t" unfolding inN in1 by simp_all
    then have "dateLess ?start1 ?A" by (rule dateLessEq_less_trans [rotated])
    with gap have "dateLess ?A ?A" by (rule dateLess_trans)
    then show False by (simp add: dateLess_irrefl)
  qed
  have 4: "inPeriod debt sdN t \<or> inPeriod debt sdN1 t"
    if "validDate t \<and> t \<noteq> sdN
            \<and> dateLessEq (dateOnly (startPeriodOf (prevStatementDateOf debt sdN))) t
            \<and> dateLess t (dateOnly sdN1)"
  proof -
    from that have "validDate t" by simp
    from no_date_between [OF this assms(3,4) d y99]
    have "dateLess t ?A \<or> t = sdN \<or> dateLessEq ?start1 t" by (simp add: A)
    with that show ?thesis unfolding inN in1 by blast
  qed
  have "newDate (getFullYear sdN) (getMonth sdN) (getDate sdN + 1) = ?start1"
    by (simp add: A)
  with prev1 start1 gap 1 2 3 4 A' show ?thesis by simp
qed

theorem consecutive_periods_skip_cutoff_day_witness:
  "d_cutOffDay sampleDebt = Some 15 \<and> nextMonthOf 2025 1 = (2025, 2)
   \<and> feb15 = newDate 2025 1 (dayClamp 2025 1 15)
   \<and> march15 = newDate 2025 2 (dayClamp 2025 2 15)
   \<and> resolveStatementDate sampleDebt march15 (Some ''2025-02'') = Inr feb15
   \<and> resolveStatementDate sampleDebt march15 (Some ''2025-03'') = Inr march15
   \<and> prevStatementDateOf sampleDebt march15 = feb15
   \<and> dateOnly (startPeriodOf (prevStatementDateOf sampleDebt march15)) = feb16
   \<and> validDate feb20 \<and> feb20 \<noteq> feb15
   \<and> dateLessEq (dateOnly (startPeriodOf (prevStatementDateOf sampleDebt feb15))) feb20
   \<and> dateLess feb20 (dateOnly march15)
   \<and> (inPeriod sampleDebt feb15 feb20 \<or> inPeriod sampleDebt march15 feb20)
   \<and> \<not> (inPeriod sampleDebt feb15 feb20 \<and> inPeriod sampleDebt march15 feb20)"
proof -
  have h: "d_cutOffDay sampleDebt = Some 15" "(100::int) < 2025" "(0::int) \<le> 1" "(1::int) \<le> 11"
    "nextMonthOf 2025 1 = (2025, 2)"
    "feb15 = newDate 2025 1 (dayClamp 2025 1 15)"
    "march15 = newDate 2025 2 (dayClamp 2025 2 15)"
    by code_simp+
  have g: "resolveStatementDate sampleDebt march15 (Some ''2025-02'') = Inr feb15"
    "resolveStatementDate sampleDebt march15 (Some ''2025-03'') = Inr march15"
    "validDate feb20 \<and> feb20 \<noteq> feb15
     \<and> dateLessEq (dateOnly (startPeriodOf (prevStatementDateOf sampleDebt feb15))) feb20
     \<and> dateLess feb20 (dateOnly march15)"
    "newDate (getFullYear feb15) (getMonth feb15) (getDate feb15 + 1) = feb16"
    "dateOnly (startPeriodOf feb15) = feb16"
    by code_simp+
  from consecutive_periods_skip_cutoff_day [OF h, of feb20] g h
  show ?thesis by simp
qed

text \<open>
  C3 as stated fails: with cutoff day 15, the cycle closing on 2025-02-15 ends
  its window at that day, excluded, and the next cycle begins on 2025-02-16.
  The day 2025-02-15 belongs to neither window, and a charge dated that day
  is an event of neither statement.
\<close>

theorem consecutive_periods_gap_counterexample:
  "resolveStatementDate sampleDebt march15 (Some ''2025-02'') = Inr feb15
   \<and> resolveStatementDate sampleDebt march15 (Some ''2025-03'') = Inr march15
   \<and> dateOnly feb15 = feb15
   \<and> dateOnly (startPeriodOf (prevStatementDateOf sampleDebt march15)) = feb16
   \<and> feb16 \<noteq> feb15
   \<and> dateLessEq (dateOnly (startPeriodOf (prevStatementDateOf sampleDebt feb15))) feb15
   \<and> dateLess feb15 (dateOnly march15)
   \<and> \<not> inPeriod sampleDebt feb15 feb15
   \<and> \<not> inPeriod sampleDebt march15 feb15
   \<and> periodEventsOf sampleEnv ''d1''
        (dateOnly (startPeriodOf (prevStatementDateOf sampleDebt feb15))) (dateOnly feb15)
        [cutoffDayCharge] = []
   \<and> periodEventsOf sampleEnv ''d1''
        (dateOnly (startPeriodOf (prevStatementDateOf sampleDebt march15))) (dateOnly march15)
        [cutoffDayCharge] = []"
  by code_simp

end
